theory Spec2Isabelle
  imports Main "HOL-Library.Word"
begin

unbundle bit_operations_syntax

section \<open>RSH: a shallow embedding of \<^verbatim>\<open>src/rsh.c\<close>\<close>

text \<open>
  The shell keeps one process-wide record (\<^verbatim>\<open>struct __rsh\<close>), two global variables
  (\<^verbatim>\<open>rsh_initialized\<close>, \<^verbatim>\<open>orig_termios\<close>) and talks to the operating system through
  system calls. The embedding keeps all of this in one state record that every function
  takes and returns. What the kernel answers (the value of \<^verbatim>\<open>fork\<close>, whether
  \<^verbatim>\<open>execvp\<close> succeeds, the status stored by \<^verbatim>\<open>waitpid\<close>) is a parameter of the
  model; what the shell asks of the kernel is appended to a trace.

  Allocation (\<^verbatim>\<open>malloc\<close>, \<^verbatim>\<open>strdup\<close>) is taken to succeed. Writes past the end of a
  fixed-size heap array, which are undefined behaviour in C, are results of their own.
  The byte reader at the head of \<^verbatim>\<open>__parse_input\<close> (prompt, echo, backspace) is not
  embedded: \<open>parse_input\<close> starts from the line the reader has accepted. Signals are
  followed where they reach the shell at the prompt; the handlers themselves are
  functions on every state.
\<close>

subsection \<open>Data model\<close>

text \<open>\<^verbatim>\<open>struct termios\<close>: the terminal discipline.\<close>

record termios =
  c_iflag :: "32 word"
  c_oflag :: "32 word"
  c_cflag :: "32 word"
  c_lflag :: "32 word"
  c_line :: "8 word"
  c_cc :: "8 word list"
  c_ispeed :: "32 word"
  c_ospeed :: "32 word"

text \<open>\<^verbatim>\<open>struct __job_node\<close>, without the link: the job table is the list of its nodes,
  head first. \<^verbatim>\<open>status\<close> is 1 for a stopped job; \<^verbatim>\<open>jobs\<close> prints every other value as
  Running.\<close>

record job_node =
  pid :: int
  command :: string
  status :: int

datatype signal = SIGINT | SIGTSTP | SIGCONT | SIGTTOU

datatype disposition = SIG_IGN | SIG_DFL | Handler_ctrlc | Handler_ctrlz

datatype atexit_fn = Disable_raw_mode

text \<open>What the shell asks of the operating system, in the order it asks. \<open>Waitpid p u\<close>
  is \<^verbatim>\<open>waitpid(p, _, u ? WUNTRACED : 0)\<close>; \<open>Jobs_line p l c\<close> is the line
  \<^verbatim>\<open>printf("[%d] %s\t%s\n", p, l, c)\<close> of \<^verbatim>\<open>jobs\<close>. Pipe descriptors
  (\<^verbatim>\<open>dup2\<close>, \<^verbatim>\<open>close\<close>) touch no variable of the shell and are left out.\<close>

datatype effect =
    Kill int signal
  | Waitpid int bool
  | Tcsetpgrp int
  | Setpgid int int
  | Signal signal disposition
  | Tcsetattr termios
  | Fork int
  | Execvp "string list"
  | Stdout string
  | Stderr string
  | Jobs_line int string string

text \<open>
  The state. \<^verbatim>\<open>capacity\<close>, \<^verbatim>\<open>running_process\<close>, \<^verbatim>\<open>path\<close>, \<^verbatim>\<open>hist_buffer\<close> and
  \<^verbatim>\<open>job_buffer\<close> are the fields of \<^verbatim>\<open>struct __rsh\<close>; \<^verbatim>\<open>hist_buffer\<close> is \<open>None\<close> for a
  null pointer and \<open>Some xs\<close> for the sentinel node followed by the nodes \<open>xs\<close>.
  \<^verbatim>\<open>rsh_initialized\<close> and \<^verbatim>\<open>orig_termios\<close> are the globals. \<open>tty\<close> is the discipline the
  terminal has, \<open>tty_pgrp\<close> its foreground process group, \<open>atexit_fns\<close> the functions
  registered with \<^verbatim>\<open>atexit\<close> (last registered first), \<open>env_PATH\<close> the value of
  \<^verbatim>\<open>getenv("PATH")\<close>.
\<close>

record state =
  rsh_initialized :: bool
  capacity :: int
  running_process :: int
  path :: string
  hist_buffer :: "string list option"
  job_buffer :: "job_node list"
  orig_termios :: termios
  tty :: termios
  tty_pgrp :: int
  atexit_fns :: "atexit_fn list"
  env_PATH :: "string option"
  trace :: "effect list"

text \<open>
  The answers of the operating system. \<open>fork_ret k\<close> is what the \<open>k\<close>-th call of
  \<^verbatim>\<open>fork\<close> inside one call of \<^verbatim>\<open>__handle_input\<close> or \<^verbatim>\<open>__handle_pipeline\<close> returns
  in the process that is followed (0 in a child); \<open>pipe_ok k\<close> says whether the
  \<open>k\<close>-th \<^verbatim>\<open>pipe\<close> succeeds, \<open>exec_ok argv\<close> whether \<^verbatim>\<open>execvp\<close> of that vector does;
  \<open>waitpid_ret k p\<close> is the status the \<open>k\<close>-th \<^verbatim>\<open>waitpid\<close> on \<open>p\<close> stores, \<open>None\<close> when
  the call fails and stores nothing; \<open>garbage\<close> is the content of an uninitialised
  \<^verbatim>\<open>int status\<close>.
\<close>

record os =
  getpid :: int
  fork_ret :: "nat \<Rightarrow> int"
  pipe_ok :: "nat \<Rightarrow> bool"
  exec_ok :: "string list \<Rightarrow> bool"
  waitpid_ret :: "nat \<Rightarrow> int \<Rightarrow> 32 word option"
  garbage :: "32 word"

text \<open>How a call ends: it returns, the process ends with an exit status, the process
  is killed by a signal, the process image is replaced by another program, the call
  never returns, or the behaviour is undefined in C.\<close>

datatype fault = Buffer_overflow | Null_pointer

datatype 'a outcome =
    Returns 'a
  | Terminated int
  | Killed signal
  | Replaced "string list"
  | Blocks
  | Undefined fault

definition emit :: "effect \<Rightarrow> state \<Rightarrow> state" where
  "emit e s = s\<lparr>trace := trace s @ [e]\<rparr>"

text \<open>Statements in sequence.\<close>

definition seq :: "(state \<Rightarrow> state) list \<Rightarrow> state \<Rightarrow> state" where
  "seq fs s = fold (\<lambda>f. f) fs s"

definition PATH_LENGTH :: nat where
  "PATH_LENGTH = 1024"

definition CRLF :: string where
  "CRLF = [CHR 0x0D, CHR 0x0A]"

subsection \<open>Wait statuses\<close>

text \<open>The macros of \<^verbatim>\<open><sys/wait.h>\<close>, as the C library of Linux defines them.\<close>

definition WEXITSTATUS :: "32 word \<Rightarrow> 32 word" where
  "WEXITSTATUS st = drop_bit 8 (st AND 0xff00)"

definition WTERMSIG :: "32 word \<Rightarrow> 32 word" where
  "WTERMSIG st = st AND 0x7f"

definition WIFEXITED :: "32 word \<Rightarrow> bool" where
  "WIFEXITED st = (WTERMSIG st = 0)"

definition WIFSIGNALED :: "32 word \<Rightarrow> bool" where
  "WIFSIGNALED st = (0 < sint (signed_drop_bit 1 (ucast ((st AND 0x7f) + 1) :: 8 word)))"

definition WIFSTOPPED :: "32 word \<Rightarrow> bool" where
  "WIFSTOPPED st = (st AND 0xff = 0x7f)"

text \<open>The status of a process that called \<^verbatim>\<open>exit(e)\<close>, and of one stopped by signal
  \<open>sig\<close>.\<close>

definition W_EXITCODE :: "8 word \<Rightarrow> 32 word" where
  "W_EXITCODE e = push_bit 8 (ucast e)"

definition W_STOPCODE :: "32 word \<Rightarrow> 32 word" where
  "W_STOPCODE sig = push_bit 8 sig OR 0x7f"

subsection \<open>Terminal mode\<close>

text \<open>The flag bits of \<^verbatim>\<open><termios.h>\<close> on Linux.\<close>

definition BRKINT :: "32 word" where "BRKINT = 0x2"
definition ICRNL :: "32 word" where "ICRNL = 0x100"
definition INPCK :: "32 word" where "INPCK = 0x10"
definition ISTRIP :: "32 word" where "ISTRIP = 0x20"
definition IXON :: "32 word" where "IXON = 0x400"
definition OPOST :: "32 word" where "OPOST = 0x1"
definition CS8 :: "32 word" where "CS8 = 0x30"
definition ECHO :: "32 word" where "ECHO = 0x8"
definition ICANON :: "32 word" where "ICANON = 0x2"
definition IEXTEN :: "32 word" where "IEXTEN = 0x8000"

text \<open>\<^verbatim>\<open>tcsetattr(STDIN_FILENO, TCSAFLUSH, &t)\<close> on the terminal.\<close>

definition tcsetattr :: "termios \<Rightarrow> state \<Rightarrow> state" where
  "tcsetattr t s = emit (Tcsetattr t) (s\<lparr>tty := t\<rparr>)"

text \<open>\<^verbatim>\<open>tcsetpgrp(STDIN_FILENO, p)\<close>, taken to succeed; the shell ignores \<^verbatim>\<open>SIGTTOU\<close>
  around every call.\<close>

definition tcsetpgrp :: "int \<Rightarrow> state \<Rightarrow> state" where
  "tcsetpgrp p s = emit (Tcsetpgrp p) (s\<lparr>tty_pgrp := p\<rparr>)"

definition disable_raw_mode :: "state \<Rightarrow> state" where
  "disable_raw_mode s = tcsetattr (orig_termios s) s"

definition enable_raw_mode :: "state \<Rightarrow> state" where
  "enable_raw_mode s =
     (let s1 = s\<lparr>orig_termios := tty s\<rparr>;
          s2 = s1\<lparr>atexit_fns := Disable_raw_mode # atexit_fns s1\<rparr>;
          raw = orig_termios s2;
          raw = raw\<lparr>c_iflag := c_iflag raw AND NOT (BRKINT OR ICRNL OR INPCK OR ISTRIP OR IXON)\<rparr>;
          raw = raw\<lparr>c_oflag := c_oflag raw AND NOT OPOST\<rparr>;
          raw = raw\<lparr>c_cflag := c_cflag raw OR CS8\<rparr>;
          raw = raw\<lparr>c_lflag := c_lflag raw AND NOT (ECHO OR ICANON OR IEXTEN)\<rparr>
      in tcsetattr raw s2)"

subsection \<open>Session state\<close>

text \<open>\<^verbatim>\<open>__rsh_get\<close>: on the first call it enters raw mode, installs the two handlers and
  fills the fields of a fresh \<^verbatim>\<open>struct __rsh\<close>. It assigns \<^verbatim>\<open>capacity\<close>,
  \<^verbatim>\<open>running_process\<close>, \<^verbatim>\<open>hist_buffer\<close> and \<^verbatim>\<open>path\<close>, and does not assign
  \<^verbatim>\<open>job_buffer\<close>, which keeps what the allocated memory held.\<close>

definition rsh_get :: "state \<Rightarrow> state" where
  "rsh_get s =
     (if \<not> rsh_initialized s then
        seq [enable_raw_mode,
             emit (Signal SIGINT Handler_ctrlc),
             emit (Signal SIGTSTP Handler_ctrlz),
             (\<lambda>s. s\<lparr>capacity := 16\<rparr>),
             (\<lambda>s. s\<lparr>running_process := 0\<rparr>),
             (\<lambda>s. s\<lparr>hist_buffer := Some []\<rparr>),
             (\<lambda>s. s\<lparr>path := (case env_PATH s of Some p \<Rightarrow> p | None \<Rightarrow> ''/bin:/usr/bin'')\<rparr>),
             (\<lambda>s. s\<lparr>rsh_initialized := True\<rparr>)] s
      else s)"

text \<open>\<^verbatim>\<open>__rsh_destroy\<close> frees the history, the jobs and the path.\<close>

definition rsh_destroy :: "state \<Rightarrow> state" where
  "rsh_destroy s = s\<lparr>hist_buffer := None, job_buffer := [], path := []\<rparr>"

text \<open>\<^verbatim>\<open>exit(code)\<close> runs the registered functions, last registered first, and ends the
  process; \<^verbatim>\<open>_exit(code)\<close> ends it at once.\<close>

fun run_atexit :: "atexit_fn list \<Rightarrow> state \<Rightarrow> state" where
  "run_atexit [] s = s"
| "run_atexit (Disable_raw_mode # fs) s = run_atexit fs (disable_raw_mode s)"

definition exit_process :: "int \<Rightarrow> state \<Rightarrow> 'a outcome \<times> state" where
  "exit_process code s = (Terminated code, run_atexit (atexit_fns s) s)"

definition underscore_exit :: "int \<Rightarrow> state \<Rightarrow> 'a outcome \<times> state" where
  "underscore_exit code s = (Terminated code, s)"

subsection \<open>History log\<close>

text \<open>\<^verbatim>\<open>__append_history\<close>: make the sentinel if the head is null, copy the string into a
  new node, walk to the last node and link the new one after it.\<close>

definition append_history :: "string \<Rightarrow> state \<Rightarrow> state" where
  "append_history str s0 =
     (let s = rsh_get s0;
          s = (if hist_buffer s = None then s\<lparr>hist_buffer := Some []\<rparr> else s)
      in case hist_buffer s of
           None \<Rightarrow> s
         | Some nodes \<Rightarrow> s\<lparr>hist_buffer := Some (nodes @ [str])\<rparr>)"

text \<open>\<^verbatim>\<open>__display_history\<close> prints the command of every node after the sentinel, each
  followed by \<^verbatim>\<open>\r\n\<close>; it reads \<^verbatim>\<open>r->hist_buffer->next\<close> without a null check.\<close>

definition display_history :: "state \<Rightarrow> unit outcome \<times> state" where
  "display_history s0 =
     (let s = rsh_get s0
      in case hist_buffer s of
           None \<Rightarrow> (Undefined Null_pointer, s)
         | Some nodes \<Rightarrow> (Returns (), seq (map (\<lambda>c. emit (Stdout (c @ CRLF))) nodes) s))"

subsection \<open>Job table\<close>

text \<open>\<^verbatim>\<open>__append_job\<close> links a new node in front of the list.\<close>

definition append_job :: "int \<Rightarrow> string \<Rightarrow> int \<Rightarrow> state \<Rightarrow> state" where
  "append_job p cmd st s0 =
     (let s = rsh_get s0
      in s\<lparr>job_buffer := \<lparr>pid = p, command = cmd, status = st\<rparr> # job_buffer s\<rparr>)"

text \<open>\<^verbatim>\<open>__remove_job\<close> walks the list and unlinks the first node whose pid matches,
  then returns.\<close>

fun remove_job_list :: "int \<Rightarrow> job_node list \<Rightarrow> job_node list" where
  "remove_job_list p [] = []"
| "remove_job_list p (j # js) = (if pid j = p then js else j # remove_job_list p js)"

definition remove_job :: "int \<Rightarrow> state \<Rightarrow> state" where
  "remove_job p s0 = (let s = rsh_get s0 in s\<lparr>job_buffer := remove_job_list p (job_buffer s)\<rparr>)"

subsection \<open>Tokenizer\<close>

text \<open>
  \<^verbatim>\<open>strtok_r(str, delim, &save)\<close> of the C library, on the text from the current position
  on: skip the delimiters in front; at the end of the text return null; else the token
  runs up to the next delimiter, which is overwritten with the terminator, and the saved
  position is the text behind that delimiter. \<^verbatim>\<open>strtok\<close> is the same function with the
  saved position kept in the library.
\<close>

definition strtok_r :: "string \<Rightarrow> string \<Rightarrow> (string \<times> string) option" where
  "strtok_r str delim =
     (let start = dropWhile (\<lambda>c. c \<in> set delim) str
      in if start = [] then None
         else Some (takeWhile (\<lambda>c. c \<notin> set delim) start,
                    drop 1 (dropWhile (\<lambda>c. c \<notin> set delim) start)))"

lemma strtok_r_shorter:
  assumes "strtok_r str delim = Some (tok, save)"
  shows "length save < length str"
proof -
  let ?start = "dropWhile (\<lambda>c. c \<in> set delim) str"
  from assms have ne: "?start \<noteq> []"
    and save: "save = drop 1 (dropWhile (\<lambda>c. c \<notin> set delim) ?start)"
    by (auto simp: strtok_r_def Let_def split: if_splits)
  have a: "length (dropWhile (\<lambda>c. c \<notin> set delim) ?start) \<le> length ?start"
    by (rule length_dropWhile_le)
  have b: "length ?start \<le> length str"
    by (rule length_dropWhile_le)
  from ne have c: "0 < length ?start"
    using length_greater_0_conv by blast
  from a b c show ?thesis
    unfolding save length_drop by linarith
qed

text \<open>The delimiters of the two tokenizers: \<^verbatim>\<open>" \t\n"\<close> and \<^verbatim>\<open>"|"\<close>.\<close>

definition whitespace :: string where
  "whitespace = [CHR '' '', CHR 0x09, CHR 0x0A]"

definition pipe_char :: string where
  "pipe_char = ''|''"

text \<open>
  The tokenizing loop of \<^verbatim>\<open>__parse_input\<close>. \<open>argv\<close> holds the tokens stored so far
  (\<^verbatim>\<open>ind\<close> is its length), \<open>cap\<close> the number of slots allocated. Before a token is stored
  the array is doubled when \<^verbatim>\<open>ind >= capacity\<close>.
\<close>

function tokenize_input :: "string \<Rightarrow> nat \<Rightarrow> string list \<Rightarrow> string list \<times> nat" where
  "tokenize_input save cap argv =
     (case strtok_r save whitespace of
        None \<Rightarrow> (argv, cap)
      | Some (token, save') \<Rightarrow>
          tokenize_input save' (if length argv \<ge> cap then cap * 2 else cap) (argv @ [token]))"
  by pat_completeness auto
termination
  by (relation "measure (\<lambda>(save, cap, argv). length save)") (auto dest: strtok_r_shorter)

declare tokenize_input.simps [simp del]

text \<open>
  \<^verbatim>\<open>__parse_input\<close> from the point where the reader has accepted \<open>line\<close> (the content of
  \<^verbatim>\<open>*input_ptr\<close>): the line is appended to the history, copied into a buffer of
  \<^verbatim>\<open>PATH_LENGTH\<close> bytes and split at blanks, tabs and newlines. After the loop
  \<^verbatim>\<open>argv[ind] = NULL\<close> is written with no check: with 16, 32, 64, ... tokens it falls
  one slot behind the array. The result is \<open>argv\<close>; \<^verbatim>\<open>*argc\<close> is its length.
\<close>

definition parse_input :: "string \<Rightarrow> state \<Rightarrow> string list outcome \<times> state" where
  "parse_input line s0 =
     (let s = append_history line s0
      in if length line \<ge> PATH_LENGTH then (Undefined Buffer_overflow, s)
         else let (argv, cap) = tokenize_input line 16 []
              in if length argv \<ge> cap then (Undefined Buffer_overflow, s)
                 else (Returns argv, s))"

text \<open>
  \<^verbatim>\<open>__parse_pipeline\<close>. The inner loop stores the arguments of one stage in an array of
  16 pointers and ends it with a null pointer; the outer loop stores the stages in an
  array of 16 pointers. Neither checks its index.
\<close>

function parse_args :: "string \<Rightarrow> string list \<Rightarrow> fault + string list" where
  "parse_args space_save args =
     (case strtok_r space_save whitespace of
        None \<Rightarrow> if length args < 16 then Inr args else Inl Buffer_overflow
      | Some (arg, space_save') \<Rightarrow>
          if length args < 16 then parse_args space_save' (args @ [arg])
          else Inl Buffer_overflow)"
  by pat_completeness auto
termination
  by (relation "measure (\<lambda>(save, args). length save)") (auto dest: strtok_r_shorter)

declare parse_args.simps [simp del]

function parse_stages :: "string \<Rightarrow> string list list \<Rightarrow> fault + string list list" where
  "parse_stages saved_ptr commands =
     (case strtok_r saved_ptr pipe_char of
        None \<Rightarrow> Inr commands
      | Some (token, saved_ptr') \<Rightarrow>
          (case parse_args token [] of
             Inl f \<Rightarrow> Inl f
           | Inr args \<Rightarrow>
               if length commands < 16 then parse_stages saved_ptr' (commands @ [args])
               else Inl Buffer_overflow))"
  by pat_completeness auto
termination
  by (relation "measure (\<lambda>(save, commands). length save)") (auto dest: strtok_r_shorter)

declare parse_stages.simps [simp del]

text \<open>The result is \<^verbatim>\<open>commands\<close>; \<^verbatim>\<open>*pipe_count\<close> is its length.\<close>

definition parse_pipeline :: "string \<Rightarrow> fault + string list list" where
  "parse_pipeline inp = parse_stages inp []"

subsection \<open>Sequencing calls\<close>

text \<open>The statements after a call run only when the call returns.\<close>

fun after :: "'a outcome \<times> state \<Rightarrow> ('a \<Rightarrow> state \<Rightarrow> 'b outcome \<times> state) \<Rightarrow> 'b outcome \<times> state" where
  "after (Returns x, s) k = k x s"
| "after (Terminated c, s) k = (Terminated c, s)"
| "after (Killed sig, s) k = (Killed sig, s)"
| "after (Replaced argv, s) k = (Replaced argv, s)"
| "after (Blocks, s) k = (Blocks, s)"
| "after (Undefined f, s) k = (Undefined f, s)"

subsection \<open>Signal handlers\<close>

text \<open>\<^verbatim>\<open>__handle_ctrlc\<close>: forward the interrupt to the foreground process when there is
  one; else print a line break, destroy the session and \<^verbatim>\<open>exit(0)\<close>.\<close>

definition handle_ctrlc :: "state \<Rightarrow> unit outcome \<times> state" where
  "handle_ctrlc s0 =
     (let s = rsh_get s0
      in if running_process s \<noteq> 0 then (Returns (), emit (Kill (running_process s) SIGINT) s)
         else exit_process 0 (rsh_destroy (emit (Stdout CRLF) s)))"

text \<open>\<^verbatim>\<open>__handle_ctrlz\<close>: with a foreground process, send it \<^verbatim>\<open>SIGTSTP\<close>, wait for it with
  \<^verbatim>\<open>WUNTRACED\<close>, record a job named \<^verbatim>\<open>"command"\<close> with status 1 when it stopped, and
  clear \<^verbatim>\<open>running_process\<close>. \<^verbatim>\<open>status\<close> is not initialised before the wait.\<close>

definition handle_ctrlz :: "os \<Rightarrow> state \<Rightarrow> state" where
  "handle_ctrlz os s0 =
     (let s = rsh_get s0
      in if running_process s \<noteq> 0 then
           let p = running_process s;
               s = emit (Kill p SIGTSTP) s;
               s = emit (Waitpid p True) s;
               status = (case waitpid_ret os 0 p of Some st \<Rightarrow> st | None \<Rightarrow> garbage os);
               s = (if WIFSTOPPED status then append_job p ''command'' 1 s else s)
           in s\<lparr>running_process := 0\<rparr>
         else s)"

subsection \<open>Pipelines\<close>

text \<open>The second loop of \<^verbatim>\<open>__handle_pipeline\<close>: wait for every recorded pid in order;
  every successful wait overwrites \<^verbatim>\<open>status\<close>, here \<open>st\<close>.\<close>

fun wait_stages :: "os \<Rightarrow> int list \<Rightarrow> nat \<Rightarrow> 32 word \<Rightarrow> state \<Rightarrow> 32 word \<times> state" where
  "wait_stages os [] k st s = (st, s)"
| "wait_stages os (p # pids) k st s =
     wait_stages os pids (Suc k)
       (case waitpid_ret os k p of Some st' \<Rightarrow> st' | None \<Rightarrow> st)
       (emit (Waitpid p False) s)"

text \<open>
  The first loop of \<^verbatim>\<open>__handle_pipeline\<close>, from stage \<open>i\<close> on, with the pids recorded so
  far, followed by the rest of the function. The process that is followed is the
  shell where \<^verbatim>\<open>fork\<close> returns a positive pid and the new child where it returns 0.
  In the child, \<^verbatim>\<open>execvp\<close> is the last statement of the branch: when it fails, control
  leaves the branch, 0 is stored in \<^verbatim>\<open>pids[i]\<close>, and the loop goes on. A stage with no
  argument has a null \<^verbatim>\<open>commands[i][0]\<close>.
\<close>

function fork_stages :: "os \<Rightarrow> string list list \<Rightarrow> nat \<Rightarrow> int list \<Rightarrow> state \<Rightarrow> int outcome \<times> state" where
  "fork_stages os commands i pids s =
     (if i < length commands then
        if Suc i < length commands \<and> \<not> pipe_ok os i then
          (Returns (- 1), emit (Stdout ''Error (FATAL): Could not open pipe'') s)
        else
          let p = fork_ret os i;
              s = emit (Fork p) s
          in if p = 0 then
               if commands ! i = [] then (Undefined Null_pointer, s)
               else
                 let s = emit (Execvp (commands ! i)) s
                 in if exec_ok os (commands ! i) then (Replaced (commands ! i), s)
                    else fork_stages os commands (Suc i) (pids @ [p]) s
             else if p < 0 then (Returns (- 1), emit (Stderr ''fork'') s)
             else fork_stages os commands (Suc i) (pids @ [p]) s
      else
        let (status, s) = wait_stages os pids 0 0 s
        in (Returns (uint (WEXITSTATUS status)), s))"
  by pat_completeness auto
termination
  by (relation "measure (\<lambda>(os, commands, i, pids, s). length commands - i)") auto

declare fork_stages.simps [simp del]

text \<open>\<^verbatim>\<open>__handle_pipeline(commands, num_commands)\<close>; \<^verbatim>\<open>num_commands\<close> is the length of
  \<open>commands\<close>.\<close>

definition handle_pipeline :: "os \<Rightarrow> string list list \<Rightarrow> state \<Rightarrow> int outcome \<times> state" where
  "handle_pipeline os commands s = fork_stages os commands 0 [] s"

subsection \<open>Commands\<close>

text \<open>\<^verbatim>\<open>atoi\<close> of the C library: blanks, an optional sign, then decimal digits up to the
  first other character. A value that does not fit an \<^verbatim>\<open>int\<close> is undefined in C and
  is not cut here.\<close>

definition isspace :: "char \<Rightarrow> bool" where
  "isspace c = (c \<in> set [CHR '' '', CHR 0x09, CHR 0x0A, CHR 0x0B, CHR 0x0C, CHR 0x0D])"

definition isdigit :: "char \<Rightarrow> bool" where
  "isdigit c = (48 \<le> (of_char c :: nat) \<and> (of_char c :: nat) \<le> 57)"

fun atoi_digits :: "int \<Rightarrow> string \<Rightarrow> int" where
  "atoi_digits acc [] = acc"
| "atoi_digits acc (c # cs) =
     (if isdigit c then atoi_digits (acc * 10 + (of_char c - 48)) cs else acc)"

definition atoi :: "string \<Rightarrow> int" where
  "atoi str =
     (case dropWhile isspace str of
        [] \<Rightarrow> 0
      | c # cs \<Rightarrow>
          if c = CHR ''-'' then - atoi_digits 0 cs
          else if c = CHR ''+'' then atoi_digits 0 cs
          else atoi_digits 0 (c # cs))"

definition LF :: string where
  "LF = [CHR 0x0A]"

text \<open>
  The \<^verbatim>\<open>do ... while\<close> loop of \<^verbatim>\<open>__handle_input\<close> that waits for the foreground child:
  \<open>k\<close> counts the calls of \<^verbatim>\<open>waitpid\<close>, \<open>st\<close> is the variable \<^verbatim>\<open>status\<close> the calls write to.
  The loop goes on while the status is none of exited, signaled, stopped; it need not
  end.
\<close>

partial_function (option) wait_foreground :: "os \<Rightarrow> int \<Rightarrow> nat \<Rightarrow> 32 word \<Rightarrow> (32 word \<times> nat) option" where
  "wait_foreground os child k st =
     (let st' = (case waitpid_ret os k child of Some w \<Rightarrow> w | None \<Rightarrow> st)
      in if \<not> WIFEXITED st' \<and> \<not> WIFSIGNALED st' \<and> \<not> WIFSTOPPED st'
         then wait_foreground os child (Suc k) st'
         else Some (st', Suc k))"

declare wait_foreground.simps [code]

text \<open>
  \<^verbatim>\<open>__handle_input\<close> from the copy of the path to the end: fork; the child makes its own
  process group and calls \<^verbatim>\<open>execvp\<close>, and \<^verbatim>\<open>_exit(127)\<close> when that returns; the
  shell hands the terminal to the child, waits, takes the terminal back and records the
  child as a stopped job or removes its record.
\<close>

definition launch :: "os \<Rightarrow> string \<Rightarrow> string list \<Rightarrow> state \<Rightarrow> int outcome \<times> state" where
  "launch os argv0 argv s =
     (if length (path s) \<ge> PATH_LENGTH then (Undefined Buffer_overflow, s)
      else
        let child = fork_ret os 0;
            s = emit (Fork child) s
        in if child = 0 then
             let s = emit (Setpgid 0 0) s;
                 s = emit (Execvp argv) s
             in if exec_ok os argv then (Replaced argv, s)
                else underscore_exit 127 (emit (Stderr ''execvp failed'') s)
           else if child > 0 then
             let s = seq [emit (Setpgid child child),
                          emit (Signal SIGTTOU SIG_IGN),
                          tcsetpgrp child,
                          emit (Signal SIGTTOU SIG_DFL),
                          emit (Signal SIGINT SIG_IGN),
                          emit (Signal SIGTSTP SIG_IGN),
                          (\<lambda>s. s\<lparr>running_process := child\<rparr>)] s
             in case wait_foreground os child 0 (garbage os) of
                  None \<Rightarrow> (Blocks, s)
                | Some (st, k) \<Rightarrow>
                    (Returns 0,
                     seq [seq (replicate k (emit (Waitpid child True))),
                          emit (Signal SIGINT Handler_ctrlc),
                          emit (Signal SIGTSTP Handler_ctrlz),
                          emit (Signal SIGTTOU SIG_IGN),
                          tcsetpgrp (getpid os),
                          emit (Signal SIGTTOU SIG_DFL),
                          (if WIFSTOPPED st then append_job child argv0 1
                           else remove_job child),
                          (\<lambda>s. s\<lparr>running_process := 0\<rparr>)] s)
           else (Returns (- 1), emit (Stderr (''Error: Fork failed'' @ CRLF)) s))"

text \<open>\<^verbatim>\<open>__handle_input\<close> from the call of \<^verbatim>\<open>__parse_pipeline\<close> on: a line of more than
  one stage is a pipeline; else \<^verbatim>\<open>history\<close> displays the log; else the command is
  launched.\<close>

definition run_command :: "os \<Rightarrow> string \<Rightarrow> string list \<Rightarrow> string \<Rightarrow> state \<Rightarrow> int outcome \<times> state" where
  "run_command os argv0 argv raw_input s =
     (case parse_pipeline raw_input of
        Inl f \<Rightarrow> (Undefined f, s)
      | Inr commands \<Rightarrow>
          if length commands > 1 then handle_pipeline os commands s
          else if argv0 = ''history'' \<or> argv0 = ''History'' then
            after (display_history s) (\<lambda>_ s. (Returns 0, s))
          else launch os argv0 argv s)"

text \<open>
  \<^verbatim>\<open>__handle_input(argc, argv, raw_input)\<close>; \<^verbatim>\<open>argc\<close> is the length of \<open>argv\<close>. The
  branches of \<^verbatim>\<open>exit\<close> and \<^verbatim>\<open>clear\<close> do not return: when \<^verbatim>\<open>__handle_ctrlc\<close> comes back,
  and after the 255 line breaks of \<^verbatim>\<open>clear\<close>, control goes on to the pipeline and
  launch code. \<^verbatim>\<open>fg\<close> and \<^verbatim>\<open>bg\<close> check \<^verbatim>\<open>argc < 2\<close> and then take \<^verbatim>\<open>atoi(argv[1])\<close>.
\<close>

definition handle_input :: "os \<Rightarrow> string list \<Rightarrow> string \<Rightarrow> state \<Rightarrow> int outcome \<times> state" where
  "handle_input os argv raw_input s0 =
     (let s = rsh_get s0
      in case argv of
           [] \<Rightarrow> (Returns (- 1), s)
         | argv0 # args \<Rightarrow>
             if argv0 = ''exit'' then
               after (handle_ctrlc s) (\<lambda>_. run_command os argv0 argv raw_input)
             else if argv0 = ''clear'' then
               run_command os argv0 argv raw_input (seq (replicate 255 (emit (Stdout CRLF))) s)
             else if argv0 = ''jobs'' then
               (Returns 0,
                seq (map (\<lambda>j. emit (Jobs_line (pid j)
                                  (if status j = 1 then ''Stopped'' else ''Running'') (command j)))
                       (job_buffer s)) s)
             else if argv0 = ''fg'' then
               (case args of
                  [] \<Rightarrow> (Returns (- 1), emit (Stderr (''Usage: fg <pid>'' @ LF)) s)
                | arg1 # _ \<Rightarrow>
                    let p = atoi arg1
                    in (Returns 0,
                        seq [emit (Signal SIGTTOU SIG_IGN),
                             tcsetpgrp p,
                             emit (Signal SIGTTOU SIG_DFL),
                             emit (Kill (- p) SIGCONT),
                             emit (Waitpid p True),
                             emit (Signal SIGTTOU SIG_IGN),
                             tcsetpgrp (getpid os),
                             emit (Signal SIGTTOU SIG_DFL)] s))
             else if argv0 = ''bg'' then
               (case args of
                  [] \<Rightarrow> (Returns (- 1), emit (Stderr (''Usage: bg <pid>'' @ LF)) s)
                | arg1 # _ \<Rightarrow>
                    let p = atoi arg1
                    in (Returns 0, remove_job p (emit (Kill p SIGCONT) s)))
             else run_command os argv0 argv raw_input s)"

subsection \<open>Main loop\<close>

text \<open>One turn of the loop of \<^verbatim>\<open>rsh_run\<close> on an accepted line: parse it, handle it,
  drop the result. \<open>Returns ()\<close> is the shell back at the prompt.\<close>

definition rsh_run_turn :: "os \<Rightarrow> string \<Rightarrow> state \<Rightarrow> unit outcome \<times> state" where
  "rsh_run_turn os line s =
     after (parse_input line s) (\<lambda>argv s.
       after (handle_input os argv line s) (\<lambda>_ s. (Returns (), s)))"

text \<open>
  What happens to the shell while it waits at the prompt: a line is submitted (with the
  answers the operating system gives while it is handled), the interrupt byte or signal
  arrives, the stop signal arrives, or a program that had the terminal has left another
  discipline behind. Before the first call of \<^verbatim>\<open>__rsh_get\<close> no handler is installed: the
  interrupt kills the shell and the stop signal suspends it.
\<close>

datatype event = Line os string | Interrupt | Stop os | Tty_change termios

fun step :: "event \<Rightarrow> state \<Rightarrow> unit outcome \<times> state" where
  "step (Line os line) s = rsh_run_turn os line s"
| "step Interrupt s = (if rsh_initialized s then handle_ctrlc s else (Killed SIGINT, s))"
| "step (Stop os) s = (Returns (), if rsh_initialized s then handle_ctrlz os s else s)"
| "step (Tty_change t) s = (Returns (), s\<lparr>tty := t\<rparr>)"

fun run :: "event list \<Rightarrow> state \<Rightarrow> unit outcome \<times> state" where
  "run [] s = (Returns (), s)"
| "run (e # es) s = after (step e s) (\<lambda>_. run es)"

subsection \<open>Tokenization as the specification words it\<close>

text \<open>
  The pieces of a text between delimiters, in order, an empty piece being no piece:
  \<open>cur\<close> is the piece being read. A stage string is trimmed of the whitespace at both
  ends. \<open>tokenize\<close> follows the words of the specification: split on the pipe character,
  trim each stage, split each stage on whitespace runs.
\<close>

fun pieces_from :: "(char \<Rightarrow> bool) \<Rightarrow> string \<Rightarrow> string \<Rightarrow> string list" where
  "pieces_from d cur [] = (if cur = [] then [] else [cur])"
| "pieces_from d cur (c # cs) =
     (if d c then (if cur = [] then pieces_from d [] cs else cur # pieces_from d [] cs)
      else pieces_from d (cur @ [c]) cs)"

definition pieces :: "string \<Rightarrow> string \<Rightarrow> string list" where
  "pieces delim str = pieces_from (\<lambda>c. c \<in> set delim) [] str"

definition trim :: "string \<Rightarrow> string" where
  "trim str = rev (dropWhile (\<lambda>c. c \<in> set whitespace) (rev (dropWhile (\<lambda>c. c \<in> set whitespace) str)))"

definition tokenize :: "string \<Rightarrow> string list list" where
  "tokenize line = map (\<lambda>stage. pieces whitespace (trim stage)) (pieces pipe_char line)"

text \<open>A line fits the arrays of \<^verbatim>\<open>__parse_pipeline\<close> when it has at most 16 stages and
  every stage has fewer than 16 arguments.\<close>

definition fits :: "string \<Rightarrow> bool" where
  "fits line = (length (pieces pipe_char line) \<le> 16 \<and>
     list_all (\<lambda>stage. length (pieces whitespace stage) < 16) (pieces pipe_char line))"

subsection \<open>Predicates of the properties\<close>

text \<open>A state with its trace forgotten; what a call keeps of the session when it
  returns; how a call may change the job table, \<open>child\<close> being the pid of the child it
  forks.\<close>

definition untraced :: "state \<Rightarrow> state" where
  "untraced s = s\<lparr>trace := []\<rparr>"

definition session_kept :: "state \<Rightarrow> state \<Rightarrow> bool" where
  "session_kept s s' = (rsh_initialized s' \<and> orig_termios s' = orig_termios s \<and>
     atexit_fns s' = atexit_fns s \<and> hist_buffer s' = hist_buffer s \<and> tty s' = tty s \<and>
     (running_process s = 0 \<longrightarrow> running_process s' = 0))"

definition jobs_changed :: "int \<Rightarrow> job_node list \<Rightarrow> job_node list \<Rightarrow> bool" where
  "jobs_changed child js js' = (js' = js \<or>
     (\<exists>cmd. js' = \<lparr>pid = child, command = cmd, status = 1\<rparr> # js) \<or>
     (\<exists>p. js' = remove_job_list p js))"

text \<open>The lines after the sentinel of the history; the lines submitted by a list of
  events.\<close>

definition hist_lines :: "state \<Rightarrow> string list" where
  "hist_lines s = (case hist_buffer s of None \<Rightarrow> [] | Some nodes \<Rightarrow> nodes)"

fun lines_of :: "event list \<Rightarrow> string list" where
  "lines_of [] = []"
| "lines_of (Line os line # es) = line # lines_of es"
| "lines_of (e # es) = lines_of es"

text \<open>No two job records have the same pid.\<close>

definition unique_pids :: "state \<Rightarrow> bool" where
  "unique_pids s = distinct (map pid (job_buffer s))"

subsection \<open>Concrete sessions\<close>

text \<open>A terminal in its usual cooked mode, and the shell's variables as the program
  starts: nothing initialised, the memory that will hold \<^verbatim>\<open>job_buffer\<close> zero.\<close>

definition cooked :: termios where
  "cooked = \<lparr>c_iflag = 0x4500, c_oflag = 0x5, c_cflag = 0xbf, c_lflag = 0x8a3b,
     c_line = 0, c_cc = [3, 28, 127, 21, 4, 0, 1, 0, 17, 19, 26], c_ispeed = 15, c_ospeed = 15\<rparr>"

definition startup :: state where
  "startup = \<lparr>rsh_initialized = False, capacity = 0, running_process = 0, path = [],
     hist_buffer = None, job_buffer = [], orig_termios = \<lparr>c_iflag = 0, c_oflag = 0,
       c_cflag = 0, c_lflag = 0, c_line = 0, c_cc = [], c_ispeed = 0, c_ospeed = 0\<rparr>,
     tty = cooked, tty_pgrp = 100, atexit_fns = [], env_PATH = Some ''/usr/bin:/bin'',
     trace = []\<rparr>"

definition stopped_job :: "int \<Rightarrow> string \<Rightarrow> job_node" where
  "stopped_job p cmd = \<lparr>pid = p, command = cmd, status = 1\<rparr>"

text \<open>An operating system that gives the pids \<open>child\<close>, \<open>child + 1\<close>, ... to the children
  of the shell \<open>shell\<close>, executes every program and stores \<open>st\<close> at every wait. The status
  \<open>0x147f\<close> is that of a process stopped by \<^verbatim>\<open>SIGTSTP\<close>, 0 that of one that exited
  with 0.\<close>

definition os_child :: "int \<Rightarrow> int \<Rightarrow> 32 word \<Rightarrow> os" where
  "os_child shell child st = \<lparr>getpid = shell, fork_ret = (\<lambda>k. child + int k), pipe_ok = (\<lambda>k. True),
     exec_ok = (\<lambda>argv. True), waitpid_ret = (\<lambda>k p. Some st), garbage = 0\<rparr>"

text \<open>The answers seen by the child forked for the first stage of a pipeline when no
  program can be executed: \<^verbatim>\<open>fork\<close> returned 0 to it, its own later \<^verbatim>\<open>fork\<close> returns 300,
  its first \<^verbatim>\<open>waitpid\<close>, on pid 0, reaps that child with status 0 and the second, on
  pid 300, fails.\<close>

definition os_failed_exec :: os where
  "os_failed_exec = \<lparr>getpid = 250, fork_ret = (\<lambda>k. if k = 0 then 0 else 300),
     pipe_ok = (\<lambda>k. True), exec_ok = (\<lambda>argv. False),
     waitpid_ret = (\<lambda>k p. if k = 0 then Some 0 else None), garbage = 0\<rparr>"

text \<open>A pipeline in which only the wait for the first stage, pid 200, succeeds and
  stores \<open>st\<close>, and one in which every wait fails, as when the shell was started with
  \<^verbatim>\<open>SIGCHLD\<close> ignored.\<close>

definition os_last_wait_fails :: "32 word \<Rightarrow> os" where
  "os_last_wait_fails st = \<lparr>getpid = 100, fork_ret = (\<lambda>k. 200 + int k), pipe_ok = (\<lambda>k. True),
     exec_ok = (\<lambda>argv. True), waitpid_ret = (\<lambda>k p. if p = 200 then Some st else None),
     garbage = 0\<rparr>"

definition os_no_wait :: os where
  "os_no_wait = \<lparr>getpid = 100, fork_ret = (\<lambda>k. 200 + int k), pipe_ok = (\<lambda>k. True),
     exec_ok = (\<lambda>argv. True), waitpid_ret = (\<lambda>k p. None), garbage = 0\<rparr>"

text \<open>A pipeline whose three stages exit with 1, 2 and 7.\<close>

definition os_three_stages :: os where
  "os_three_stages = \<lparr>getpid = 100, fork_ret = (\<lambda>k. 200 + int k), pipe_ok = (\<lambda>k. True),
     exec_ok = (\<lambda>argv. True),
     waitpid_ret = (\<lambda>k p. if p = 200 then Some (W_EXITCODE 1)
                            else if p = 201 then Some (W_EXITCODE 2)
                            else if p = 202 then Some (W_EXITCODE 7) else None),
     garbage = 0\<rparr>"

text \<open>
  Sessions. \<open>session_events\<close>: a command that is stopped, a change of the discipline,
  \<^verbatim>\<open>jobs\<close>, the stop signal at the prompt. \<open>stale_events\<close>: a command that is stopped and
  brought to the foreground, where it ends. \<open>reuse_events\<close>: the same, then a second
  command that is given the same pid and is stopped. \<open>blank_events\<close>: three lines, the
  second empty.
\<close>

definition session_events :: "event list" where
  "session_events = [Line (os_child 100 200 0x147f) ''vim notes'', Tty_change (cooked\<lparr>c_lflag := 0\<rparr>),
     Line (os_child 100 200 0x147f) ''jobs'', Stop (os_child 100 200 0x147f)]"

definition stale_events :: "event list" where
  "stale_events = [Line (os_child 100 200 0x147f) ''vim'', Line (os_child 100 200 0) ''fg 200'']"

definition reuse_events :: "event list" where
  "reuse_events = [Line (os_child 100 200 0x147f) ''vim'', Line (os_child 100 200 0) ''fg 200'',
     Line (os_child 100 200 0x147f) ''vim'']"

definition blank_events :: "event list" where
  "blank_events = [Line (os_child 100 200 0) ''jobs'', Line (os_child 100 200 0) '''',
     Line (os_child 100 200 0) ''fg'']"

text \<open>A state of an initialised session: a stopped job with pid 200 in the table and no
  foreground process.\<close>

definition stopped_200 :: state where
  "stopped_200 = (rsh_get startup)\<lparr>job_buffer := [stopped_job 200 ''vim'']\<rparr>"

section \<open>Properties\<close>

subsection \<open>Session state\<close>

lemma seq_Nil: "seq [] s = s"
  by (simp add: seq_def)

lemma seq_Cons: "seq (f # fs) s = seq fs (f s)"
  by (simp add: seq_def)

lemma seq_replicate_emit: "seq (replicate k (emit e)) s = s\<lparr>trace := trace s @ replicate k e\<rparr>"
proof (induction k arbitrary: s)
  case 0
  then show ?case by (simp add: seq_def)
next
  case (Suc k)
  have "seq (replicate (Suc k) (emit e)) s = seq (replicate k (emit e)) (emit e s)"
    by (simp add: seq_def)
  also have "\<dots> = s\<lparr>trace := trace s @ replicate (Suc k) e\<rparr>"
    by (simp add: Suc emit_def replicate_app_Cons_same)
  finally show ?case .
qed

lemma seq_map_emit: "seq (map (\<lambda>x. emit (f x)) xs) s = s\<lparr>trace := trace s @ map f xs\<rparr>"
proof (induction xs arbitrary: s)
  case Nil
  then show ?case by (simp add: seq_def)
next
  case (Cons x xs)
  have "seq (map (\<lambda>x. emit (f x)) (x # xs)) s = seq (map (\<lambda>x. emit (f x)) xs) (emit (f x) s)"
    by (simp add: seq_def)
  also have "\<dots> = s\<lparr>trace := trace s @ map f (x # xs)\<rparr>"
    by (simp add: Cons emit_def)
  finally show ?case .
qed

lemma untraced_emit [simp]: "untraced (emit e s) = untraced s"
  by (simp add: untraced_def emit_def)

lemma untraced_fields:
  "rsh_initialized s = rsh_initialized (untraced s)"
  "capacity s = capacity (untraced s)"
  "running_process s = running_process (untraced s)"
  "path s = path (untraced s)"
  "hist_buffer s = hist_buffer (untraced s)"
  "job_buffer s = job_buffer (untraced s)"
  "orig_termios s = orig_termios (untraced s)"
  "tty s = tty (untraced s)"
  "tty_pgrp s = tty_pgrp (untraced s)"
  "atexit_fns s = atexit_fns (untraced s)"
  "env_PATH s = env_PATH (untraced s)"
  by (simp_all add: untraced_def)

lemma untraced_eqD:
  assumes "untraced s' = untraced s"
  shows "rsh_initialized s' = rsh_initialized s \<and> capacity s' = capacity s \<and>
    running_process s' = running_process s \<and> path s' = path s \<and>
    hist_buffer s' = hist_buffer s \<and> job_buffer s' = job_buffer s \<and>
    orig_termios s' = orig_termios s \<and> tty s' = tty s \<and> tty_pgrp s' = tty_pgrp s \<and>
    atexit_fns s' = atexit_fns s \<and> env_PATH s' = env_PATH s"
  using assms untraced_fields by metis

lemma untraced_wait_stages: "untraced (snd (wait_stages os pids k st s)) = untraced s"
  by (induction pids arbitrary: k st s) simp_all

lemma untraced_fork_stages: "untraced (snd (fork_stages os commands i pids s)) = untraced s"
proof (induction os commands i pids s rule: fork_stages.induct)
  case (1 os commands i pids s)
  show ?case
  proof (cases "i < length commands")
    case False
    then show ?thesis
      by (subst fork_stages.simps) (simp add: case_prod_beta untraced_wait_stages)
  next
    case True
    with 1 show ?thesis
      by (subst fork_stages.simps) (auto simp: Let_def)
  qed
qed

lemma no_exit_fork_stages: "fst (fork_stages os commands i pids s) \<noteq> Terminated c"
proof (induction os commands i pids s rule: fork_stages.induct)
  case (1 os commands i pids s)
  show ?case
    apply (subst fork_stages.simps)
    using 1
    apply (auto simp: Let_def split: prod.split)
    done
qed

lemma rsh_get_initialized: "rsh_initialized s \<Longrightarrow> rsh_get s = s"
  by (simp add: rsh_get_def)

lemma rsh_get_is_initialized: "rsh_initialized (rsh_get s)"
  by (simp add: rsh_get_def seq_Nil seq_Cons)

lemma rsh_get_fresh:
  assumes "\<not> rsh_initialized s"
  shows "running_process (rsh_get s) = 0 \<and> orig_termios (rsh_get s) = tty s \<and>
    atexit_fns (rsh_get s) = Disable_raw_mode # atexit_fns s \<and> hist_buffer (rsh_get s) = Some [] \<and>
    job_buffer (rsh_get s) = job_buffer s"
  using assms
  by (simp add: rsh_get_def seq_Nil seq_Cons enable_raw_mode_def tcsetattr_def emit_def Let_def)

lemma rsh_get_job_buffer: "job_buffer (rsh_get s) = job_buffer s"
  by (simp add: rsh_get_def seq_Nil seq_Cons enable_raw_mode_def tcsetattr_def emit_def Let_def)

lemma after_ReturnsE:
  assumes "after x k = (Returns r, s')"
  obtains a s1 where "x = (Returns a, s1)" and "k a s1 = (Returns r, s')"
  using assms by (cases x; cases "fst x") auto

text \<open>What a call of \<^verbatim>\<open>__handle_input\<close> that returns has done to the session.\<close>

lemma launch_returns:
  assumes "rsh_initialized s" and "launch os argv0 argv s = (Returns r, s')"
  shows "rsh_initialized s' \<and> orig_termios s' = orig_termios s \<and> atexit_fns s' = atexit_fns s \<and>
    hist_buffer s' = hist_buffer s \<and> tty s' = tty s \<and>
    (running_process s = 0 \<longrightarrow> running_process s' = 0) \<and>
    (job_buffer s' = job_buffer s \<or>
     job_buffer s' = \<lparr>pid = fork_ret os 0, command = argv0, status = 1\<rparr> # job_buffer s \<or>
     job_buffer s' = remove_job_list (fork_ret os 0) (job_buffer s))"
  using assms
  by (auto simp: launch_def Let_def seq_Nil seq_Cons emit_def tcsetpgrp_def append_job_def
      remove_job_def rsh_get_initialized underscore_exit_def seq_replicate_emit
      split: if_splits option.splits)

lemma launch_kept:
  assumes "rsh_initialized s" and "launch os argv0 argv s = (Returns r, s')"
  shows "session_kept s s' \<and> jobs_changed (fork_ret os 0) (job_buffer s) (job_buffer s')"
  using launch_returns [OF assms] by (auto simp: session_kept_def jobs_changed_def)

lemma handle_pipeline_fields:
  "rsh_initialized (snd (handle_pipeline os commands s)) = rsh_initialized s \<and>
   running_process (snd (handle_pipeline os commands s)) = running_process s \<and>
   hist_buffer (snd (handle_pipeline os commands s)) = hist_buffer s \<and>
   job_buffer (snd (handle_pipeline os commands s)) = job_buffer s \<and>
   orig_termios (snd (handle_pipeline os commands s)) = orig_termios s \<and>
   tty (snd (handle_pipeline os commands s)) = tty s \<and>
   atexit_fns (snd (handle_pipeline os commands s)) = atexit_fns s"
  using untraced_eqD [OF untraced_fork_stages [of os commands 0 "[]" s]]
  by (simp add: handle_pipeline_def)

lemma run_command_kept:
  assumes "rsh_initialized s" and "run_command os argv0 argv raw s = (Returns r, s')"
  shows "session_kept s s' \<and> jobs_changed (fork_ret os 0) (job_buffer s) (job_buffer s')"
proof (cases "parse_pipeline raw")
  case (Inl f)
  with assms show ?thesis by (simp add: run_command_def)
next
  case (Inr commands)
  show ?thesis
  proof (cases "length commands > 1")
    case True
    with Inr assms(2) have "s' = snd (handle_pipeline os commands s)"
      by (simp add: run_command_def)
    with assms(1) handle_pipeline_fields [of os commands s] show ?thesis
      by (simp add: session_kept_def jobs_changed_def)
  next
    case False
    show ?thesis
    proof (cases "argv0 = ''history'' \<or> argv0 = ''History''")
      case True
      with False Inr assms show ?thesis
        by (auto simp: run_command_def display_history_def rsh_get_initialized Let_def
            seq_map_emit session_kept_def jobs_changed_def split: option.splits)
    next
      case h: False
      with False Inr assms(2) have "launch os argv0 argv s = (Returns r, s')"
        by (simp add: run_command_def)
      from launch_kept [OF assms(1) this] show ?thesis .
    qed
  qed
qed

lemma handle_input_kept:
  assumes "rsh_initialized s" and "running_process s = 0"
    and "handle_input os argv raw s = (Returns r, s')"
  shows "session_kept s s' \<and> jobs_changed (fork_ret os 0) (job_buffer s) (job_buffer s')"
proof (cases argv)
  case Nil
  with assms show ?thesis
    by (simp add: handle_input_def rsh_get_initialized session_kept_def jobs_changed_def)
next
  case (Cons argv0 args)
  consider (exit) "argv0 = ''exit''" | (clear) "argv0 = ''clear''" | (jobs) "argv0 = ''jobs''"
    | (fg) "argv0 = ''fg''" | (bg) "argv0 = ''bg''"
    | (other) "argv0 \<noteq> ''exit''" "argv0 \<noteq> ''clear''" "argv0 \<noteq> ''jobs''" "argv0 \<noteq> ''fg''"
        "argv0 \<noteq> ''bg''"
    by blast
  then show ?thesis
  proof cases
    case exit
    with Cons assms show ?thesis
      by (simp add: handle_input_def rsh_get_initialized handle_ctrlc_def exit_process_def)
  next
    case clear
    let ?s1 = "seq (replicate 255 (emit (Stdout CRLF))) s"
    from clear Cons assms have rc: "run_command os argv0 argv raw ?s1 = (Returns r, s')"
      by (simp add: handle_input_def rsh_get_initialized)
    have "rsh_initialized ?s1" using assms(1) by (simp add: seq_replicate_emit)
    from run_command_kept [OF this rc] show ?thesis
      by (simp add: seq_replicate_emit session_kept_def)
  next
    case jobs
    with Cons assms show ?thesis
      by (auto simp: handle_input_def rsh_get_initialized seq_map_emit session_kept_def
          jobs_changed_def)
  next
    case fg
    with Cons assms show ?thesis
      by (auto simp: handle_input_def rsh_get_initialized seq_Nil seq_Cons emit_def tcsetpgrp_def
          Let_def session_kept_def jobs_changed_def split: list.splits)
  next
    case bg
    with Cons assms show ?thesis
      by (auto simp: handle_input_def rsh_get_initialized emit_def remove_job_def
          Let_def session_kept_def jobs_changed_def split: list.splits)
  next
    case other
    with Cons assms have "run_command os argv0 argv raw s = (Returns r, s')"
      by (simp add: handle_input_def rsh_get_initialized)
    from run_command_kept [OF assms(1) this] show ?thesis .
  qed
qed

text \<open>\<^verbatim>\<open>__parse_input\<close> changes the history and nothing else.\<close>

lemma parse_input_state:
  assumes "rsh_initialized s"
  shows "snd (parse_input line s) = s\<lparr>hist_buffer := Some (hist_lines s @ [line])\<rparr>"
  using assms
  by (auto simp: parse_input_def append_history_def rsh_get_initialized Let_def hist_lines_def
      split: option.splits prod.splits)

lemma parse_input_history:
  "hist_buffer (snd (parse_input line s)) = Some (hist_lines (rsh_get s) @ [line])"
  by (auto simp: parse_input_def append_history_def Let_def hist_lines_def
      split: option.splits prod.splits)

text \<open>What holds every time the shell is back at the prompt.\<close>

lemma lines_of_Cons: "lines_of (e # es) = lines_of [e] @ lines_of es"
  by (cases e) simp_all

lemma step_kept:
  assumes "rsh_initialized s" and "running_process s = 0" and "step e s = (Returns (), s')"
  shows "rsh_initialized s' \<and> running_process s' = 0 \<and> orig_termios s' = orig_termios s \<and>
    atexit_fns s' = atexit_fns s \<and> hist_lines s' = hist_lines s @ lines_of [e] \<and>
    (hist_buffer s \<noteq> None \<longrightarrow> hist_buffer s' \<noteq> None) \<and>
    (case e of Line os line \<Rightarrow> jobs_changed (fork_ret os 0) (job_buffer s) (job_buffer s')
     | _ \<Rightarrow> job_buffer s' = job_buffer s)"
proof (cases e)
  case (Line os line)
  with assms(3) have "rsh_run_turn os line s = (Returns (), s')" by simp
  then obtain argv s1 where p: "parse_input line s = (Returns argv, s1)"
    and h: "after (handle_input os argv line s1) (\<lambda>_ s. (Returns (), s)) = (Returns (), s')"
    unfolding rsh_run_turn_def by (rule after_ReturnsE)
  from h obtain r s2 where h2: "handle_input os argv line s1 = (Returns r, s2)" and "s2 = s'"
    by (rule after_ReturnsE) simp
  from p parse_input_state [OF assms(1), of line]
  have s1: "s1 = s\<lparr>hist_buffer := Some (hist_lines s @ [line])\<rparr>" by simp
  with assms have "rsh_initialized s1" "running_process s1 = 0" by simp_all
  from handle_input_kept [OF this h2] \<open>s2 = s'\<close> s1 Line assms(2) show ?thesis
    by (simp add: session_kept_def hist_lines_def)
next
  case Interrupt
  with assms show ?thesis
    by (simp add: handle_ctrlc_def rsh_get_initialized exit_process_def)
next
  case (Stop os)
  with assms show ?thesis
    by (auto simp: handle_ctrlz_def rsh_get_initialized)
next
  case (Tty_change t)
  with assms show ?thesis
    by (auto simp: hist_lines_def)
qed

lemma run_kept:
  assumes "rsh_initialized s" and "running_process s = 0" and "run es s = (Returns (), s')"
  shows "rsh_initialized s' \<and> running_process s' = 0 \<and> orig_termios s' = orig_termios s \<and>
    atexit_fns s' = atexit_fns s \<and> hist_lines s' = hist_lines s @ lines_of es \<and>
    (hist_buffer s \<noteq> None \<longrightarrow> hist_buffer s' \<noteq> None)"
  using assms
proof (induction es arbitrary: s)
  case Nil
  then show ?case by simp
next
  case (Cons e es)
  from Cons.prems(3) obtain u s1 where e: "step e s = (Returns u, s1)"
    and r: "run es s1 = (Returns (), s')"
    by (simp only: run.simps) (rule after_ReturnsE)
  from step_kept [OF Cons.prems(1,2), of e s1] e
  have k: "rsh_initialized s1" "running_process s1 = 0" "orig_termios s1 = orig_termios s"
    "atexit_fns s1 = atexit_fns s" "hist_lines s1 = hist_lines s @ lines_of [e]"
    "hist_buffer s \<noteq> None \<longrightarrow> hist_buffer s1 \<noteq> None"
    by simp_all
  from Cons.IH [OF k(1,2) r] k lines_of_Cons [of e es] show ?case by simp
qed

subsection \<open>Terminal mode\<close>

lemma run_atexit_tty:
  "tty (run_atexit fs s) = (if fs = [] then tty s else orig_termios s) \<and>
   orig_termios (run_atexit fs s) = orig_termios s"
proof (induction fs arbitrary: s)
  case Nil
  then show ?case by simp
next
  case (Cons f fs)
  then show ?case
    by (cases f) (simp add: disable_raw_mode_def tcsetattr_def emit_def)
qed

lemma interrupt_at_prompt:
  assumes "rsh_initialized s" and "running_process s = 0" and "atexit_fns s \<noteq> []"
  shows "\<exists>s'. handle_ctrlc s = (Terminated 0, s') \<and> tty s' = orig_termios s"
  using assms
  by (simp add: handle_ctrlc_def rsh_get_initialized exit_process_def run_atexit_tty
      rsh_destroy_def emit_def)

lemma tokenize_exit: "tokenize_input ''exit'' 16 [] = ([''exit''], 16)"
  by code_simp

lemma exit_at_prompt:
  assumes "rsh_initialized s" and "running_process s = 0" and "atexit_fns s \<noteq> []"
  shows "\<exists>s'. rsh_run_turn os ''exit'' s = (Terminated 0, s') \<and> tty s' = orig_termios s"
proof -
  let ?s1 = "s\<lparr>hist_buffer := Some (hist_lines s @ [''exit''])\<rparr>"
  have "fst (parse_input ''exit'' s) = Returns [''exit'']"
    by (simp add: parse_input_def tokenize_exit PATH_LENGTH_def Let_def)
  with parse_input_state [OF assms(1), of "''exit''"]
  have p: "parse_input ''exit'' s = (Returns [''exit''], ?s1)"
    by (metis prod.collapse)
  from assms have "rsh_initialized ?s1" "running_process ?s1 = 0" "atexit_fns ?s1 \<noteq> []"
    by simp_all
  from interrupt_at_prompt [OF this] obtain s' where
    c: "handle_ctrlc ?s1 = (Terminated 0, s')" and t: "tty s' = orig_termios s"
    by auto
  from \<open>rsh_initialized ?s1\<close> c have "handle_input os [''exit''] ''exit'' ?s1 = (Terminated 0, s')"
    by (simp add: handle_input_def rsh_get_initialized)
  with p t show ?thesis
    by (simp add: rsh_run_turn_def)
qed

lemma session_events_return: "fst (run session_events (rsh_get startup)) = Returns ()"
  by code_simp

text \<open>
  Claim C3. Entering raw mode and then restoring gives the terminal the discipline it
  had. \<^verbatim>\<open>__rsh_get\<close> captures in \<^verbatim>\<open>orig_termios\<close> the discipline the terminal has at its
  first call. Whatever happens afterwards (lines, signals at the prompt, programs that
  leave another discipline behind), when the shell is back at the prompt both ways out,
  the interrupt with no foreground process and the line \<^verbatim>\<open>exit\<close>, end the process with
  status 0 and leave the terminal with the discipline captured at startup. The loop of
  \<^verbatim>\<open>rsh_run\<close> has no other way out.
\<close>

theorem terminal_restored_on_exit:
  assumes "\<not> rsh_initialized s0" and "run es (rsh_get s0) = (Returns (), s)"
  shows "tty (disable_raw_mode (enable_raw_mode s0)) = tty s0 \<and>
    orig_termios (rsh_get s0) = tty s0 \<and>
    (\<exists>s'. step Interrupt s = (Terminated 0, s') \<and> tty s' = tty s0) \<and>
    (\<exists>s'. step (Line os ''exit'') s = (Terminated 0, s') \<and> tty s' = tty s0)"
proof -
  have roundtrip: "tty (disable_raw_mode (enable_raw_mode s0)) = tty s0"
    by (simp add: disable_raw_mode_def enable_raw_mode_def tcsetattr_def emit_def Let_def)
  from rsh_get_fresh [OF assms(1)] have f: "running_process (rsh_get s0) = 0"
    "orig_termios (rsh_get s0) = tty s0" "atexit_fns (rsh_get s0) \<noteq> []"
    by simp_all
  from run_kept [OF rsh_get_is_initialized f(1) assms(2)] f
  have k: "rsh_initialized s" "running_process s = 0" "atexit_fns s \<noteq> []"
    "orig_termios s = tty s0"
    by simp_all
  from interrupt_at_prompt [OF k(1,2,3)] exit_at_prompt [OF k(1,2,3), of os] k(1,4) roundtrip f(2)
  show ?thesis by simp
qed

theorem terminal_restored_on_exit_witness:
  "\<not> rsh_initialized startup \<and>
   run session_events (rsh_get startup) = (Returns (), snd (run session_events (rsh_get startup))) \<and>
   tty (disable_raw_mode (enable_raw_mode startup)) = tty startup \<and>
   orig_termios (rsh_get startup) = tty startup \<and>
   (\<exists>s'. step Interrupt (snd (run session_events (rsh_get startup))) = (Terminated 0, s') \<and>
      tty s' = tty startup) \<and>
   (\<exists>s'. step (Line (os_child 100 201 0) ''exit'') (snd (run session_events (rsh_get startup)))
        = (Terminated 0, s') \<and> tty s' = tty startup)"
proof -
  have a: "\<not> rsh_initialized startup" by (simp add: startup_def)
  have b: "run session_events (rsh_get startup)
      = (Returns (), snd (run session_events (rsh_get startup)))"
    using session_events_return by (metis prod.collapse)
  from terminal_restored_on_exit [OF a b, of "os_child 100 201 0"] a b show ?thesis by simp
qed

subsection \<open>History log\<close>

lemma blank_events_return: "fst (run blank_events (rsh_get startup)) = Returns ()"
  by code_simp

text \<open>
  Claim C4, amended. Every call of \<^verbatim>\<open>__parse_input\<close> appends the accepted line to the
  history, whatever the line is and whatever becomes of it. So when the shell is back at
  the prompt after a session, the history holds exactly the lines submitted, empty ones
  included, in the order of submission, and \<^verbatim>\<open>__display_history\<close> prints exactly these.
\<close>

theorem history_records_every_line:
  "hist_buffer (snd (parse_input line s1)) = Some (hist_lines (rsh_get s1) @ [line]) \<and>
   (\<not> rsh_initialized s0 \<and> run es (rsh_get s0) = (Returns (), s) \<longrightarrow>
      hist_buffer s = Some (lines_of es) \<and>
      display_history s
        = (Returns (), s\<lparr>trace := trace s @ map (\<lambda>line. Stdout (line @ CRLF)) (lines_of es)\<rparr>))"
proof -
  have "hist_buffer s = Some (lines_of es) \<and>
      display_history s
        = (Returns (), s\<lparr>trace := trace s @ map (\<lambda>line. Stdout (line @ CRLF)) (lines_of es)\<rparr>)"
    if h: "\<not> rsh_initialized s0" "run es (rsh_get s0) = (Returns (), s)"
  proof -
    from rsh_get_fresh [OF h(1)] have f: "running_process (rsh_get s0) = 0"
      "hist_buffer (rsh_get s0) = Some []"
      by simp_all
    from run_kept [OF rsh_get_is_initialized f(1) h(2)] f(2)
    have k: "rsh_initialized s" "hist_lines s = lines_of es" "hist_buffer s \<noteq> None"
      by (simp_all add: hist_lines_def)
    then have "hist_buffer s = Some (lines_of es)"
      by (auto simp: hist_lines_def)
    with k(1) show ?thesis
      by (simp add: display_history_def rsh_get_initialized seq_map_emit)
  qed
  with parse_input_history [of line s1] show ?thesis by blast
qed

theorem history_records_every_line_witness:
  "\<not> rsh_initialized startup \<and>
   run blank_events (rsh_get startup) = (Returns (), snd (run blank_events (rsh_get startup))) \<and>
   hist_buffer (snd (run blank_events (rsh_get startup))) = Some [''jobs'', '''', ''fg''] \<and>
   fst (display_history (snd (run blank_events (rsh_get startup)))) = Returns ()"
proof -
  have a: "\<not> rsh_initialized startup" by (simp add: startup_def)
  have b: "run blank_events (rsh_get startup)
      = (Returns (), snd (run blank_events (rsh_get startup)))"
    using blank_events_return by (metis prod.collapse)
  from history_records_every_line [of "''x''" startup startup blank_events
      "snd (run blank_events (rsh_get startup))"] a b
  show ?thesis by (simp add: blank_events_def)
qed

text \<open>The claim as stated, with only the non-empty lines in the history, fails: after the
  lines \<^verbatim>\<open>jobs\<close>, the empty line and \<^verbatim>\<open>fg\<close> the history has three entries.\<close>

theorem history_keeps_empty_line:
  "fst (run blank_events (rsh_get startup)) = Returns () \<and>
   hist_buffer (snd (run blank_events (rsh_get startup)))
     \<noteq> Some (filter (\<lambda>line. line \<noteq> '''') (lines_of blank_events))"
  by code_simp

subsection \<open>Tokenizer\<close>

lemma pieces_from_cur:
  "cur \<noteq> [] \<Longrightarrow> pieces_from d cur str
     = (cur @ takeWhile (\<lambda>c. \<not> d c) str) # pieces_from d [] (drop 1 (dropWhile (\<lambda>c. \<not> d c) str))"
  by (induction str arbitrary: cur) auto

lemma pieces_from_skip: "pieces_from d [] (dropWhile d str) = pieces_from d [] str"
  by (induction str) auto

lemma pieces_from_last: "d c \<Longrightarrow> pieces_from d cur (str @ [c]) = pieces_from d cur str"
  by (induction str arbitrary: cur) auto

lemma pieces_strtok_r_None: "strtok_r str delim = None \<Longrightarrow> pieces delim str = []"
proof -
  assume "strtok_r str delim = None"
  then have "dropWhile (\<lambda>c. c \<in> set delim) str = []"
    by (simp add: strtok_r_def Let_def split: if_splits)
  with pieces_from_skip [of "\<lambda>c. c \<in> set delim" str] show ?thesis
    by (simp add: pieces_def)
qed

lemma pieces_strtok_r_Some:
  assumes "strtok_r str delim = Some (tok, save)"
  shows "pieces delim str = tok # pieces delim save"
proof -
  let ?d = "\<lambda>c. c \<in> set delim"
  let ?start = "dropWhile ?d str"
  from assms have ne: "?start \<noteq> []"
    and tok: "tok = takeWhile (\<lambda>c. \<not> ?d c) ?start"
    and save: "save = drop 1 (dropWhile (\<lambda>c. \<not> ?d c) ?start)"
    by (auto simp: strtok_r_def Let_def split: if_splits)
  from ne obtain c cs where cs: "?start = c # cs" by (cases ?start) auto
  then have nd: "\<not> ?d c" using hd_dropWhile [of ?d str] by auto
  have "pieces_from ?d [] ?start = pieces_from ?d [c] cs"
    using cs nd by simp
  also have "\<dots> = ([c] @ takeWhile (\<lambda>c. \<not> ?d c) cs)
      # pieces_from ?d [] (drop 1 (dropWhile (\<lambda>c. \<not> ?d c) cs))"
    by (rule pieces_from_cur) simp
  also have "\<dots> = tok # pieces delim save"
    using cs nd by (simp add: tok save pieces_def)
  finally show ?thesis
    using pieces_from_skip [of ?d str] by (simp add: pieces_def)
qed

lemma pieces_trim: "pieces whitespace (trim str) = pieces whitespace str"
proof -
  let ?d = "\<lambda>c. c \<in> set whitespace"
  have trailing: "pieces_from ?d [] (rev (dropWhile ?d (rev t))) = pieces_from ?d [] t" for t
  proof (induction t rule: rev_induct)
    case Nil
    then show ?case by simp
  next
    case (snoc x xs)
    then show ?case by (simp add: pieces_from_last)
  qed
  show ?thesis
    unfolding pieces_def trim_def using trailing pieces_from_skip [of ?d str] by simp
qed

lemma pieces_padding:
  assumes "set before \<subseteq> set whitespace" and "set behind \<subseteq> set whitespace"
  shows "pieces whitespace (before @ stage @ behind) = pieces whitespace stage"
proof -
  let ?d = "\<lambda>c. c \<in> set whitespace"
  have front: "pieces_from ?d [] (w @ t) = pieces_from ?d [] t" if "set w \<subseteq> set whitespace" for w t
    using that by (induction w) auto
  have rear: "pieces_from ?d cur (t @ w) = pieces_from ?d cur t" if "set w \<subseteq> set whitespace" for w t cur
    using that
  proof (induction w rule: rev_induct)
    case Nil
    then show ?case by simp
  next
    case (snoc x xs)
    then have "pieces_from ?d cur ((t @ xs) @ [x]) = pieces_from ?d cur (t @ xs)"
      by (intro pieces_from_last) simp
    with snoc show ?case by simp
  qed
  from front [OF assms(1)] rear [OF assms(2)] show ?thesis
    by (simp add: pieces_def)
qed

lemma parse_args_pieces:
  "parse_args save args
    = (if length args + length (pieces whitespace save) < 16
       then Inr (args @ pieces whitespace save) else Inl Buffer_overflow)"
proof (induction save args rule: parse_args.induct)
  case (1 save args)
  show ?case
  proof (cases "strtok_r save whitespace")
    case None
    with pieces_strtok_r_None [OF None] show ?thesis
      by (subst parse_args.simps) simp
  next
    case (Some r)
    obtain arg save' where r: "r = (arg, save')" by (cases r)
    from pieces_strtok_r_Some [OF Some [unfolded r]]
    have p: "pieces whitespace save = arg # pieces whitespace save'" .
    show ?thesis
    proof (cases "length args < 16")
      case True
      from "1.IH" [OF Some [unfolded r] refl True] Some r p True show ?thesis
        by (subst parse_args.simps) simp
    next
      case False
      with Some r show ?thesis
        by (subst parse_args.simps) simp
    qed
  qed
qed

lemma parse_stages_pieces:
  "length commands \<le> 16 \<Longrightarrow> parse_stages saved commands
    = (if length commands + length (pieces pipe_char saved) \<le> 16 \<and>
          list_all (\<lambda>stage. length (pieces whitespace stage) < 16) (pieces pipe_char saved)
       then Inr (commands @ map (pieces whitespace) (pieces pipe_char saved))
       else Inl Buffer_overflow)"
proof (induction saved commands rule: parse_stages.induct)
  case (1 saved commands)
  show ?case
  proof (cases "strtok_r saved pipe_char")
    case None
    with pieces_strtok_r_None [OF None] "1.prems" show ?thesis
      by (subst parse_stages.simps) simp
  next
    case (Some r)
    obtain token saved' where r: "r = (token, saved')" by (cases r)
    from pieces_strtok_r_Some [OF Some [unfolded r]]
    have p: "pieces pipe_char saved = token # pieces pipe_char saved'" .
    have a: "parse_args token [] = (if length (pieces whitespace token) < 16
        then Inr (pieces whitespace token) else Inl Buffer_overflow)"
      using parse_args_pieces [of token "[]"] by simp
    show ?thesis
    proof (cases "length (pieces whitespace token) < 16")
      case False
      with Some r a p show ?thesis
        by (subst parse_stages.simps) simp
    next
      case True
      show ?thesis
      proof (cases "length commands < 16")
        case False
        with Some r a p True show ?thesis
          by (subst parse_stages.simps) simp
      next
        case c: True
        from a True have a': "parse_args token [] = Inr (pieces whitespace token)" by simp
        from c have "length (commands @ [pieces whitespace token]) \<le> 16" by simp
        from "1.IH" [OF Some [unfolded r] refl a' c this] Some r a' p True c show ?thesis
          by (subst parse_stages.simps) simp
      qed
    qed
  qed
qed

lemma parse_pipeline_tokenize:
  "parse_pipeline line = (if fits line then Inr (tokenize line) else Inl Buffer_overflow)"
  using parse_stages_pieces [of "[]" line]
  by (simp add: parse_pipeline_def fits_def tokenize_def pieces_trim)

lemma fits_example: "fits ''ls | grep foo | wc -l''"
  by code_simp

text \<open>Beyond 16 stages, or from 16 arguments in a stage on, \<^verbatim>\<open>__parse_pipeline\<close> writes
  behind its arrays.\<close>

lemma parse_pipeline_overflow:
  "parse_pipeline ''a|a|a|a|a|a|a|a|a|a|a|a|a|a|a|a|a'' = Inl Buffer_overflow"
  "parse_pipeline ''a b c d e f g h i j k l m n o p'' = Inl Buffer_overflow"
  by code_simp+

text \<open>
  Claim C5, amended. On a line that fits the arrays, \<^verbatim>\<open>__parse_pipeline\<close> gives the
  stages the specification describes: the non-empty pieces between pipe characters, in
  order, each trimmed and split on runs of blanks, tabs and newlines, with no quoting.
  Whitespace in front of and behind a stage does not change its argument vector. The
  line \<^verbatim>\<open>ls | grep foo | wc -l\<close> gives the three stages of the claim, and
  \<^verbatim>\<open>echo hi  |  cat\<close> parses as \<^verbatim>\<open>echo hi|cat\<close> does.
\<close>

theorem parse_pipeline_within_capacity:
  "(fits line \<longrightarrow> parse_pipeline line = Inr (tokenize line)) \<and>
   (set before \<subseteq> set whitespace \<and> set behind \<subseteq> set whitespace \<longrightarrow>
      pieces whitespace (before @ stage @ behind) = pieces whitespace stage) \<and>
   parse_pipeline ''ls | grep foo | wc -l'' = Inr [[''ls''], [''grep'', ''foo''], [''wc'', ''-l'']] \<and>
   parse_pipeline ''echo hi  |  cat'' = parse_pipeline ''echo hi|cat'' \<and>
   parse_pipeline ''echo hi|cat'' = Inr [[''echo'', ''hi''], [''cat'']]"
proof -
  have "parse_pipeline ''ls | grep foo | wc -l'' = Inr [[''ls''], [''grep'', ''foo''], [''wc'', ''-l'']]"
    by code_simp
  moreover have "parse_pipeline ''echo hi  |  cat'' = Inr [[''echo'', ''hi''], [''cat'']]"
    by code_simp
  moreover have "parse_pipeline ''echo hi|cat'' = Inr [[''echo'', ''hi''], [''cat'']]"
    by code_simp
  ultimately show ?thesis
    using parse_pipeline_tokenize [of line] pieces_padding [of before behind stage] by simp
qed

theorem parse_pipeline_within_capacity_witness:
  "fits ''ls | grep foo | wc -l'' \<and>
   parse_pipeline ''ls | grep foo | wc -l'' = Inr (tokenize ''ls | grep foo | wc -l'') \<and>
   tokenize ''ls | grep foo | wc -l'' = [[''ls''], [''grep'', ''foo''], [''wc'', ''-l'']] \<and>
   set ''  '' \<subseteq> set whitespace \<and> set '' '' \<subseteq> set whitespace \<and>
   pieces whitespace (''  '' @ ''grep foo'' @ '' '') = pieces whitespace ''grep foo''"
proof -
  have a: "set ''  '' \<subseteq> set whitespace" "set '' '' \<subseteq> set whitespace"
    by (simp_all add: whitespace_def)
  have b: "tokenize ''ls | grep foo | wc -l'' = [[''ls''], [''grep'', ''foo''], [''wc'', ''-l'']]"
    by code_simp
  from parse_pipeline_within_capacity [of "''ls | grep foo | wc -l''" "''  ''" "'' ''" "''grep foo''"]
    fits_example a b
  show ?thesis by simp
qed

text \<open>The claim as stated, with whitespace around a pipe character never changing the
  parse, fails: a piece of blanks is a stage with no argument, an empty piece is no
  stage.\<close>

theorem whitespace_only_stage_counts:
  "parse_pipeline ''ls| '' \<noteq> parse_pipeline ''ls|'' \<and>
   parse_pipeline ''ls| '' = Inr [[''ls''], []] \<and> parse_pipeline ''ls|'' = Inr [[''ls'']] \<and>
   parse_pipeline ''a| |b'' \<noteq> parse_pipeline ''a||b'' \<and>
   parse_pipeline ''a| |b'' = Inr [[''a''], [], [''b'']] \<and>
   parse_pipeline ''a||b'' = Inr [[''a''], [''b'']]"
  by code_simp

subsection \<open>Job table\<close>

lemma remove_job_list_absent:
  "p \<notin> pid ` set js \<Longrightarrow> remove_job_list p js = js"
  by (induction js) auto

lemma remove_job_list_present:
  "p \<in> pid ` set js \<Longrightarrow>
   \<exists>xs y zs. js = xs @ y # zs \<and> pid y = p \<and> p \<notin> pid ` set xs \<and>
     remove_job_list p js = xs @ zs"
proof (induction js)
  case Nil
  then show ?case by simp
next
  case (Cons j js)
  show ?case
  proof (cases "pid j = p")
    case True
    then have "j # js = [] @ j # js \<and> pid j = p \<and> p \<notin> pid ` set [] \<and>
        remove_job_list p (j # js) = [] @ js"
      by simp
    then show ?thesis by blast
  next
    case False
    with Cons.prems have "p \<in> pid ` set js" by auto
    from Cons.IH [OF this] obtain xs y zs where
      h: "js = xs @ y # zs" "pid y = p" "p \<notin> pid ` set xs" "remove_job_list p js = xs @ zs"
      by blast
    with False have "j # js = (j # xs) @ y # zs \<and> pid y = p \<and> p \<notin> pid ` set (j # xs) \<and>
        remove_job_list p (j # js) = (j # xs) @ zs"
      by auto
    then show ?thesis by blast
  qed
qed

lemma remove_job_job_buffer:
  "job_buffer (remove_job p s) = remove_job_list p (job_buffer s)"
  by (simp add: remove_job_def Let_def rsh_get_job_buffer)

lemma remove_job_list_subset: "set (remove_job_list p js) \<subseteq> set js"
  by (induction js) auto

lemma remove_job_list_distinct:
  "distinct (map pid js) \<Longrightarrow> distinct (map pid (remove_job_list p js))"
proof (induction js)
  case Nil
  then show ?case by simp
next
  case (Cons j js)
  then show ?case using remove_job_list_subset [of p js] by auto
qed

text \<open>
  Claim C10. \<^verbatim>\<open>__remove_job(pid)\<close> leaves the job table as it is when no record has that
  pid. When some record has it, the table splits into the records before the first
  match (none of them with that pid), the match, and the records after it, and the new
  table is the first part followed by the last: the first match is gone, every other
  record is where it was.
\<close>

theorem remove_job_removes_first_match:
  "(p \<notin> pid ` set (job_buffer s) \<longrightarrow> job_buffer (remove_job p s) = job_buffer s) \<and>
   (p \<in> pid ` set (job_buffer s) \<longrightarrow>
      (\<exists>before match after.
         job_buffer s = before @ match # after \<and> pid match = p \<and>
         p \<notin> pid ` set before \<and>
         job_buffer (remove_job p s) = before @ after))"
  using remove_job_list_absent [of p "job_buffer s"]
    remove_job_list_present [of p "job_buffer s"]
  by (simp add: remove_job_job_buffer)

theorem remove_job_removes_first_match_witness:
  "7 \<notin> pid ` set (job_buffer (startup\<lparr>job_buffer := [stopped_job 3 ''vim'']\<rparr>)) \<and>
   job_buffer (remove_job 7 (startup\<lparr>job_buffer := [stopped_job 3 ''vim'']\<rparr>))
     = [stopped_job 3 ''vim''] \<and>
   5 \<in> pid ` set (job_buffer (startup\<lparr>job_buffer :=
       [stopped_job 3 ''vim'', stopped_job 5 ''top'', stopped_job 5 ''cat'']\<rparr>)) \<and>
   (\<exists>before match after.
      job_buffer (startup\<lparr>job_buffer :=
        [stopped_job 3 ''vim'', stopped_job 5 ''top'', stopped_job 5 ''cat'']\<rparr>)
        = before @ match # after \<and> pid match = 5 \<and> 5 \<notin> pid ` set before \<and>
      job_buffer (remove_job 5 (startup\<lparr>job_buffer :=
        [stopped_job 3 ''vim'', stopped_job 5 ''top'', stopped_job 5 ''cat'']\<rparr>))
        = before @ after)"
  using remove_job_removes_first_match [of 7 "startup\<lparr>job_buffer := [stopped_job 3 ''vim'']\<rparr>"]
    remove_job_removes_first_match [of 5 "startup\<lparr>job_buffer :=
       [stopped_job 3 ''vim'', stopped_job 5 ''top'', stopped_job 5 ''cat'']\<rparr>"]
  by (simp add: stopped_job_def)

text \<open>
  Claim C6, as the code has it. After a command with pid 200 has been stopped and
  brought back with \<^verbatim>\<open>fg\<close>, its record is still in the table, which has one record per
  pid. When a later child is given pid 200 and is stopped, \<^verbatim>\<open>__append_job\<close> links a
  second record: the table of a state the shell reaches has two records with the same
  pid.
\<close>

theorem job_table_duplicate_pid:
  "fst (run stale_events (rsh_get startup)) = Returns () \<and>
   unique_pids (snd (run stale_events (rsh_get startup))) \<and>
   fst (run reuse_events (rsh_get startup)) = Returns () \<and>
   map pid (job_buffer (snd (run reuse_events (rsh_get startup)))) = [200, 200] \<and>
   \<not> unique_pids (snd (run reuse_events (rsh_get startup)))"
  by code_simp

text \<open>The stop handler with a foreground process that stops; at the prompt, where there
  is none, it changes nothing. While a child is in the foreground the shell ignores the
  stop signal, and \<^verbatim>\<open>__handle_input\<close> records the stop after its wait.\<close>

lemma handle_ctrlz_stopped:
  assumes "rsh_initialized s" and "running_process s \<noteq> 0"
    and "waitpid_ret os 0 (running_process s) = Some st" and "WIFSTOPPED st"
  shows "job_buffer (handle_ctrlz os s)
      = \<lparr>pid = running_process s, command = ''command'', status = 1\<rparr> # job_buffer s \<and>
    running_process (handle_ctrlz os s) = 0 \<and>
    (running_process s \<notin> pid ` set (job_buffer s) \<longrightarrow>
       filter (\<lambda>j. pid j = running_process s) (job_buffer (handle_ctrlz os s))
         = [\<lparr>pid = running_process s, command = ''command'', status = 1\<rparr>])"
proof -
  from assms have j: "job_buffer (handle_ctrlz os s)
      = \<lparr>pid = running_process s, command = ''command'', status = 1\<rparr> # job_buffer s"
    and r: "running_process (handle_ctrlz os s) = 0"
    by (simp_all add: handle_ctrlz_def rsh_get_initialized Let_def emit_def append_job_def)
  have "filter (\<lambda>j. pid j = running_process s) (job_buffer s) = []"
    if "running_process s \<notin> pid ` set (job_buffer s)"
    using that by (auto simp: filter_empty_conv image_iff)
  with j r show ?thesis by simp
qed

lemma handle_ctrlz_at_prompt:
  "rsh_initialized s \<Longrightarrow> running_process s = 0 \<Longrightarrow> handle_ctrlz os s = s"
  by (simp add: handle_ctrlz_def rsh_get_initialized)

lemma wait_foreground_first:
  assumes "waitpid_ret os k child = Some st" and "WIFSTOPPED st"
  shows "wait_foreground os child k st0 = Some (st, Suc k)"
  using assms by (subst wait_foreground.simps) simp

lemma launch_stopped_child:
  assumes "rsh_initialized s" and "length (path s) < PATH_LENGTH" and "0 < fork_ret os 0"
    and "waitpid_ret os 0 (fork_ret os 0) = Some st" and "WIFSTOPPED st"
  shows "\<exists>s'. launch os argv0 argv s = (Returns 0, s') \<and>
    job_buffer s' = \<lparr>pid = fork_ret os 0, command = argv0, status = 1\<rparr> # job_buffer s \<and>
    running_process s' = 0 \<and> tty_pgrp s' = getpid os"
  using assms wait_foreground_first [OF assms(4,5), of "garbage os"]
  by (simp add: launch_def Let_def seq_Nil seq_Cons emit_def tcsetpgrp_def append_job_def
      rsh_get_initialized seq_replicate_emit)

text \<open>
  Claim C7, as the code has it. When the foreground child is stopped, one record for it
  with status 1 (Stopped) is put in front of the job table and \<^verbatim>\<open>running_process\<close> is set
  to 0, but records already in the table are not looked at. In the session where \<^verbatim>\<open>fg\<close>
  has left the record of pid 200 behind, the child that is then given pid 200 and is
  stopped in the foreground ends with two records in the table, not one.
\<close>

theorem stopped_child_second_record:
  "fst (run stale_events (rsh_get startup)) = Returns () \<and>
   job_buffer (snd (run stale_events (rsh_get startup))) = [stopped_job 200 ''vim''] \<and>
   fst (step (Line (os_child 100 200 0x147f) ''top'') (snd (run stale_events (rsh_get startup))))
     = Returns () \<and>
   filter (\<lambda>j. pid j = 200)
     (job_buffer (snd (step (Line (os_child 100 200 0x147f) ''top'')
        (snd (run stale_events (rsh_get startup))))))
     = [stopped_job 200 ''top'', stopped_job 200 ''vim''] \<and>
   running_process (snd (step (Line (os_child 100 200 0x147f) ''top'')
        (snd (run stale_events (rsh_get startup))))) = 0"
  by code_simp

subsection \<open>Job control commands\<close>

text \<open>
  Claim C8, as the code has it. \<^verbatim>\<open>fg <pid>\<close> hands the terminal to the process group,
  sends it \<^verbatim>\<open>SIGCONT\<close>, waits for the next change of state of the process and takes the
  terminal back for the shell, but it leaves the job table as it is: the record of the
  job is not removed.
\<close>

theorem fg_keeps_job_record:
  assumes "rsh_initialized s"
  shows "\<exists>s'. handle_input os (''fg'' # arg # rest) raw s = (Returns 0, s') \<and>
    job_buffer s' = job_buffer s \<and> tty_pgrp s' = getpid os \<and>
    trace s' = trace s @ [Signal SIGTTOU SIG_IGN, Tcsetpgrp (atoi arg), Signal SIGTTOU SIG_DFL,
      Kill (- atoi arg) SIGCONT, Waitpid (atoi arg) True,
      Signal SIGTTOU SIG_IGN, Tcsetpgrp (getpid os), Signal SIGTTOU SIG_DFL]"
  using assms
  by (simp add: handle_input_def rsh_get_initialized Let_def seq_Nil seq_Cons emit_def tcsetpgrp_def)

theorem fg_keeps_job_record_witness:
  "rsh_initialized stopped_200 \<and> job_buffer stopped_200 = [stopped_job 200 ''vim''] \<and>
   (\<exists>s'. handle_input (os_child 100 201 0) [''fg'', ''200''] ''fg 200'' stopped_200 = (Returns 0, s') \<and>
      job_buffer s' = [stopped_job 200 ''vim''] \<and> tty_pgrp s' = 100)"
proof -
  have a: "rsh_initialized stopped_200" by (simp add: stopped_200_def rsh_get_is_initialized)
  have b: "job_buffer stopped_200 = [stopped_job 200 ''vim'']" by (simp add: stopped_200_def)
  from fg_keeps_job_record [OF a, of "os_child 100 201 0" "''200''" "[]" "''fg 200''"] a b
  show ?thesis by (auto simp: os_child_def)
qed

lemma tokenize_fg: "tokenize_input ''fg'' 16 [] = ([''fg''], 16)"
  by code_simp

lemma tokenize_bg: "tokenize_input ''bg'' 16 [] = ([''bg''], 16)"
  by code_simp

text \<open>
  Claim C9, amended. \<^verbatim>\<open>fg\<close> and \<^verbatim>\<open>bg\<close> with no argument print their usage line on the
  error stream and return -1; nothing else changes: no signal is sent, the job table is
  as before. As lines of a session they add their entry to the history and the shell is
  back at the prompt.
\<close>

theorem fg_bg_missing_argument:
  assumes "rsh_initialized s"
  shows "handle_input os [''fg''] raw s
      = (Returns (- 1), s\<lparr>trace := trace s @ [Stderr (''Usage: fg <pid>'' @ LF)]\<rparr>) \<and>
    handle_input os [''bg''] raw s
      = (Returns (- 1), s\<lparr>trace := trace s @ [Stderr (''Usage: bg <pid>'' @ LF)]\<rparr>) \<and>
    step (Line os ''fg'') s
      = (Returns (), s\<lparr>hist_buffer := Some (hist_lines s @ [''fg'']),
                         trace := trace s @ [Stderr (''Usage: fg <pid>'' @ LF)]\<rparr>) \<and>
    step (Line os ''bg'') s
      = (Returns (), s\<lparr>hist_buffer := Some (hist_lines s @ [''bg'']),
                         trace := trace s @ [Stderr (''Usage: bg <pid>'' @ LF)]\<rparr>)"
proof -
  have pf: "parse_input ''fg'' s = (Returns [''fg''], s\<lparr>hist_buffer := Some (hist_lines s @ [''fg''])\<rparr>)"
    using parse_input_state [OF assms, of "''fg''"]
    by (simp add: parse_input_def tokenize_fg PATH_LENGTH_def Let_def)
  have pb: "parse_input ''bg'' s = (Returns [''bg''], s\<lparr>hist_buffer := Some (hist_lines s @ [''bg''])\<rparr>)"
    using parse_input_state [OF assms, of "''bg''"]
    by (simp add: parse_input_def tokenize_bg PATH_LENGTH_def Let_def)
  have h: "handle_input os [''fg''] raw s'
      = (Returns (- 1), s'\<lparr>trace := trace s' @ [Stderr (''Usage: fg <pid>'' @ LF)]\<rparr>)"
    "handle_input os [''bg''] raw s'
      = (Returns (- 1), s'\<lparr>trace := trace s' @ [Stderr (''Usage: bg <pid>'' @ LF)]\<rparr>)"
    if "rsh_initialized s'" for s' raw
    using that by (simp_all add: handle_input_def rsh_get_initialized emit_def)
  from assms h pf pb show ?thesis
    by (simp add: rsh_run_turn_def)
qed

theorem fg_bg_missing_argument_witness:
  "rsh_initialized stopped_200 \<and>
   fst (handle_input (os_child 100 201 0) [''fg''] ''fg'' stopped_200) = Returns (- 1) \<and>
   fst (handle_input (os_child 100 201 0) [''bg''] ''bg'' stopped_200) = Returns (- 1) \<and>
   fst (step (Line (os_child 100 201 0) ''fg'') stopped_200) = Returns () \<and>
   job_buffer (snd (step (Line (os_child 100 201 0) ''bg'') stopped_200)) = [stopped_job 200 ''vim'']"
proof -
  have a: "rsh_initialized stopped_200" by (simp add: stopped_200_def rsh_get_is_initialized)
  have b: "job_buffer stopped_200 = [stopped_job 200 ''vim'']" by (simp add: stopped_200_def)
  from fg_bg_missing_argument [OF a, of "os_child 100 201 0" "''fg''"]
    fg_bg_missing_argument [OF a, of "os_child 100 201 0" "''bg''"] a b
  show ?thesis by simp
qed

text \<open>The claim as stated, for an argument that is not a number too, fails: \<^verbatim>\<open>atoi\<close> reads
  such an argument as 0, no usage line is printed and \<^verbatim>\<open>SIGCONT\<close> is sent to pid 0.\<close>

theorem bg_non_numeric_sends_signal:
  "atoi ''abc'' = 0 \<and>
   fst (step (Line (os_child 100 201 0) ''bg abc'') stopped_200) = Returns () \<and>
   trace (snd (step (Line (os_child 100 201 0) ''bg abc'') stopped_200))
     = trace stopped_200 @ [Kill 0 SIGCONT] \<and>
   fst (step (Line (os_child 100 201 0) ''fg abc'') stopped_200) = Returns () \<and>
   trace (snd (step (Line (os_child 100 201 0) ''fg abc'') stopped_200))
     = trace stopped_200 @ [Signal SIGTTOU SIG_IGN, Tcsetpgrp 0, Signal SIGTTOU SIG_DFL,
         Kill 0 SIGCONT, Waitpid 0 True, Signal SIGTTOU SIG_IGN, Tcsetpgrp 100,
         Signal SIGTTOU SIG_DFL]"
  by code_simp

subsection \<open>Launcher and pipelines\<close>

text \<open>On the single-command path the child whose \<^verbatim>\<open>execvp\<close> fails ends with status 127,
  without running the functions registered with \<^verbatim>\<open>atexit\<close>.\<close>

lemma launch_child_exec_failure:
  assumes "length (path s) < PATH_LENGTH" and "fork_ret os 0 = 0" and "\<not> exec_ok os argv"
  shows "launch os argv0 argv s
    = (Terminated 127, s\<lparr>trace := trace s @ [Fork 0, Setpgid 0 0, Execvp argv, Stderr ''execvp failed'']\<rparr>)"
  using assms by (simp add: launch_def Let_def emit_def underscore_exit_def)

text \<open>
  Claim C1, as the code has it on the pipeline path. No call of \<^verbatim>\<open>__handle_pipeline\<close>
  ends the process with status 127. In the child forked for the first stage of
  \<^verbatim>\<open>nosuchcmd | cat\<close>, where \<^verbatim>\<open>execvp\<close> fails, the call goes on with the loop, forks the
  second stage itself, waits and returns 0; the child is then back at the prompt of the
  read loop.
\<close>

theorem pipeline_child_survives_failed_exec:
  "fst (handle_pipeline os commands s) \<noteq> Terminated 127 \<and>
   fst (handle_pipeline os_failed_exec [[''nosuchcmd''], [''cat'']] (rsh_get startup)) = Returns 0 \<and>
   trace (snd (handle_pipeline os_failed_exec [[''nosuchcmd''], [''cat'']] (rsh_get startup)))
     = trace (rsh_get startup) @ [Fork 0, Execvp [''nosuchcmd''], Fork 300,
         Waitpid 0 False, Waitpid 300 False] \<and>
   fst (step (Line os_failed_exec ''nosuchcmd | cat'') (rsh_get startup)) = Returns ()"
proof -
  have "fst (handle_pipeline os commands s) \<noteq> Terminated 127"
    by (simp add: handle_pipeline_def no_exit_fork_stages)
  moreover have "fst (handle_pipeline os_failed_exec [[''nosuchcmd''], [''cat'']] (rsh_get startup)) = Returns 0"
    by code_simp
  moreover have "trace (snd (handle_pipeline os_failed_exec [[''nosuchcmd''], [''cat'']] (rsh_get startup)))
     = trace (rsh_get startup) @ [Fork 0, Execvp [''nosuchcmd''], Fork 300,
         Waitpid 0 False, Waitpid 300 False]"
    by code_simp
  moreover have "fst (step (Line os_failed_exec ''nosuchcmd | cat'') (rsh_get startup)) = Returns ()"
    by code_simp
  ultimately show ?thesis by blast
qed

lemma wait_stages_status:
  "fst (wait_stages os pids k st s) = fst (wait_stages os pids k st s')"
  by (induction pids arbitrary: k st s s') simp_all

lemma wait_stages_last:
  "fst (wait_stages os (pids @ [p]) k st s)
    = (case waitpid_ret os (k + length pids) p of
         Some w \<Rightarrow> w | None \<Rightarrow> fst (wait_stages os pids k st s))"
proof (induction pids arbitrary: k st s)
  case Nil
  then show ?case by (simp split: option.splits)
next
  case (Cons q pids)
  show ?case
    using Cons [of "Suc k"] wait_stages_status by (simp split: option.splits)
qed

lemma fork_stages_all_forked:
  assumes "\<forall>j. i \<le> j \<and> j < length commands \<longrightarrow> 0 < fork_ret os j"
    and "\<forall>j. i \<le> j \<and> Suc j < length commands \<longrightarrow> pipe_ok os j"
  shows "fst (fork_stages os commands i pids s)
    = Returns (uint (WEXITSTATUS (fst (wait_stages os
        (pids @ map (fork_ret os) [i..<length commands]) 0 0 s))))"
  using assms
proof (induction os commands i pids s rule: fork_stages.induct)
  case (1 os commands i pids s)
  show ?case
  proof (cases "i < length commands")
    case False
    then show ?thesis
      by (subst fork_stages.simps) (simp add: case_prod_beta)
  next
    case True
    let ?p = "fork_ret os i"
    from True "1.prems" have p: "0 < ?p" and pipe: "Suc i < length commands \<longrightarrow> pipe_ok os i"
      by auto
    have rest: "\<forall>j. Suc i \<le> j \<and> j < length commands \<longrightarrow> 0 < fork_ret os j"
      "\<forall>j. Suc i \<le> j \<and> Suc j < length commands \<longrightarrow> pipe_ok os j"
      using "1.prems" by auto
    from True pipe p have ih: "fst (fork_stages os commands (Suc i) (pids @ [?p]) (emit (Fork ?p) s))
      = Returns (uint (WEXITSTATUS (fst (wait_stages os
          ((pids @ [?p]) @ map (fork_ret os) [Suc i..<length commands]) 0 0 (emit (Fork ?p) s)))))"
      by (intro "1.IH"(2) [OF _ _ refl refl _ _ rest]) auto
    have unfold: "fork_stages os commands i pids s
      = fork_stages os commands (Suc i) (pids @ [?p]) (emit (Fork ?p) s)"
      using True pipe p by (subst fork_stages.simps) (auto simp: Let_def)
    from True have "[i..<length commands] = i # [Suc i..<length commands]"
      by (simp add: upt_conv_Cons)
    with ih unfold wait_stages_status [of os _ 0 0 "emit (Fork ?p) s" s] show ?thesis
      by simp
  qed
qed

lemma WEXITSTATUS_W_EXITCODE: "WEXITSTATUS (W_EXITCODE e) = ucast e"
proof -
  have m: "(0xff00 :: 32 word) = push_bit 8 (mask 8)"
    by (simp add: mask_eq_exp_minus_1)
  show ?thesis
    unfolding WEXITSTATUS_def W_EXITCODE_def m
    by (rule bit_word_eqI) (auto simp: bit_simps dest: bit_imp_le_length)
qed

lemma uint_exit_status: "uint (ucast (e :: 8 word) :: 32 word) = uint e"
  by (rule uint_up_ucast) (simp add: is_up)

text \<open>
  Claim C2, amended. For a pipeline of at least two stages in which every pipe is
  created and every stage is forked, and where the wait for the last stage succeeds and
  stores the status of that process, \<^verbatim>\<open>__handle_pipeline\<close> returns \<^verbatim>\<open>WEXITSTATUS\<close> of that
  status, whatever the waits for the earlier stages store; when the last stage exited
  with \<open>e\<close> the result is \<open>e\<close>.
\<close>

theorem pipeline_status_is_last_stage:
  assumes "2 \<le> length commands"
    and "\<forall>i < length commands. 0 < fork_ret os i"
    and "\<forall>i. Suc i < length commands \<longrightarrow> pipe_ok os i"
    and "waitpid_ret os (length commands - 1) (fork_ret os (length commands - 1)) = Some st"
  shows "fst (handle_pipeline os commands s) = Returns (uint (WEXITSTATUS st)) \<and>
    (st = W_EXITCODE e \<longrightarrow> fst (handle_pipeline os commands s) = Returns (uint e))"
proof -
  let ?n = "length commands"
  from assms(1) have n: "[0..<?n] = [0..<?n - 1] @ [?n - 1]"
    by (metis Suc_diff_1 le_eq_less_or_eq less_imp_Suc_add not_less_eq_eq numeral_2_eq_2
        upt_Suc_append zero_less_Suc zero_le)
  have "fst (handle_pipeline os commands s)
    = Returns (uint (WEXITSTATUS (fst (wait_stages os (map (fork_ret os) [0..<?n]) 0 0 s))))"
    unfolding handle_pipeline_def
    using fork_stages_all_forked [of 0 commands os "[]" s] assms(2,3) by simp
  also have "fst (wait_stages os (map (fork_ret os) [0..<?n]) 0 0 s) = st"
    using wait_stages_last [of os "map (fork_ret os) [0..<?n - 1]" "fork_ret os (?n - 1)" 0 0 s]
      assms(4) n
    by (metis (no_types, lifting) add_0 diff_zero length_map length_upt list.simps(8,9)
        map_append option.simps(5))
  finally have r: "fst (handle_pipeline os commands s) = Returns (uint (WEXITSTATUS st))" .
  then show ?thesis
    by (simp add: WEXITSTATUS_W_EXITCODE uint_exit_status)
qed

theorem pipeline_status_is_last_stage_witness:
  "fst (handle_pipeline os_three_stages [[''ls''], [''grep'', ''foo''], [''wc'', ''-l'']]
     (rsh_get startup)) = Returns 7"
proof -
  let ?commands = "[[''ls''], [''grep'', ''foo''], [''wc'', ''-l'']]"
  have a: "2 \<le> length ?commands" by simp
  have b: "\<forall>i < length ?commands. 0 < fork_ret os_three_stages i"
    by (simp add: os_three_stages_def)
  have c: "\<forall>i. Suc i < length ?commands \<longrightarrow> pipe_ok os_three_stages i"
    by (simp add: os_three_stages_def)
  have d: "waitpid_ret os_three_stages (length ?commands - 1)
      (fork_ret os_three_stages (length ?commands - 1)) = Some (W_EXITCODE 7)"
    by (simp add: os_three_stages_def)
  from pipeline_status_is_last_stage [OF a b c d, of "rsh_get startup" 7]
  have "fst (handle_pipeline os_three_stages ?commands (rsh_get startup)) = Returns (uint (7 :: 8 word))"
    by blast
  then show ?thesis by simp
qed

text \<open>The claim as stated, for every pipeline whose stages are all forked, fails: the
  result of \<^verbatim>\<open>waitpid\<close> is never tested, and when the wait for the last stage fails the
  status left by an earlier wait is returned: 3 or 5 with the first stage, 0 when no
  wait succeeds.\<close>

theorem pipeline_status_without_last_wait:
  "fst (handle_pipeline (os_last_wait_fails (W_EXITCODE 3)) [[''false''], [''true'']] (rsh_get startup))
     = Returns 3 \<and>
   fst (handle_pipeline (os_last_wait_fails (W_EXITCODE 5)) [[''false''], [''true'']] (rsh_get startup))
     = Returns 5 \<and>
   fst (handle_pipeline os_no_wait [[''true''], [''false'']] (rsh_get startup)) = Returns 0 \<and>
   fst (step (Line (os_last_wait_fails (W_EXITCODE 3)) ''false | true'') (rsh_get startup)) = Returns ()"
  by code_simp

end
